theory Spec2Isabelle
  imports Complex_Main "HOL-Library.Word"
begin

unbundle bit_operations_syntax

section \<open>The line breaker of libs/minikin/LineBreaker.cpp\<close>

text \<open>
  A shallow embedding of \<^verbatim>\<open>LineBreaker.cpp\<close>. The C++ types \<^verbatim>\<open>float\<close> and
  \<^verbatim>\<open>ParaWidth\<close> (a \<^verbatim>\<open>double\<close>) are read as real numbers, so rounding is not modelled;
  \<^verbatim>\<open>size_t\<close> is \<^typ>\<open>nat\<close>, with the wrap-around written out at the one subtraction that
  can go below zero; \<^verbatim>\<open>uint16_t\<close>, \<^verbatim>\<open>uint8_t\<close> and the \<^verbatim>\<open>int\<close> of the flags are words.
  A \<^verbatim>\<open>std::vector\<close> is a list; reading a vector out of range is undefined behaviour in
  the source and an unspecified value of \<open>!\<close> here, and so is the dereference of a
  null delegate (\<open>the None\<close>). \<^verbatim>\<open>setText\<close> leaves one candidate in \<^verbatim>\<open>mCandidates\<close>, so
  \<^verbatim>\<open>nCand - 1\<close> does not go below zero in a paragraph; offsets are below \<open>2^31\<close>, so the
  conversions between \<^verbatim>\<open>size_t\<close> and \<^verbatim>\<open>int\<close> keep their values.
\<close>

subsection \<open>Constants\<close>

type_synonym uint16 = "16 word"
type_synonym uint8 = "8 word"
type_synonym int32 = "32 word"

definition CHAR_TAB :: uint16 where "CHAR_TAB = 0x0009"
definition CHAR_NBSP :: uint16 where "CHAR_NBSP = 0x00A0"

text \<open>\<^verbatim>\<open>std::numeric_limits<float>::max()\<close>, that is \<open>(2 - 2^-23) * 2^127\<close>.\<close>
definition SCORE_INFTY :: real where
  "SCORE_INFTY = 340282346638528859811704183484516925440"
definition SCORE_OVERFULL :: real where "SCORE_OVERFULL = 1000000000000"
definition SCORE_DESPERATE :: real where "SCORE_DESPERATE = 10000000000"

definition LAST_LINE_PENALTY_MULTIPLIER :: real where "LAST_LINE_PENALTY_MULTIPLIER = 4"
definition LINE_PENALTY_MULTIPLIER :: real where "LINE_PENALTY_MULTIPLIER = 2"
definition SHRINK_PENALTY_MULTIPLIER :: real where "SHRINK_PENALTY_MULTIPLIER = 4"
definition LONGEST_HYPHENATED_WORD :: nat where "LONGEST_HYPHENATED_WORD = 45"
definition MAX_TEXT_BUF_RETAIN :: nat where "MAX_TEXT_BUF_RETAIN = 32678"
definition SHRINKABILITY :: real where "SHRINKABILITY = 1 / 3"

text \<open>\<^verbatim>\<open>INT_MAX\<close> of a 32-bit \<^verbatim>\<open>int\<close>, the "no tab seen" value of \<^verbatim>\<open>mFirstTabIndex\<close>.\<close>
definition INT_MAX :: int where "INT_MAX = 2147483647"

subsection \<open>Data\<close>

text \<open>
  Modelled from the spec: the enum \<^verbatim>\<open>HyphenationType\<close> is declared in Hyphenator.h, which
  is not among the sources. The spec names four of its values and leaves the others to
  the hyphenator; they are \<open>BREAK_OTHER n\<close> here.
\<close>
datatype HyphenationType =
    DONT_BREAK
  | BREAK_AND_INSERT_HYPHEN
  | BREAK_AND_INSERT_ARMENIAN_HYPHEN
  | BREAK_AND_DONT_INSERT_HYPHEN
  | BREAK_OTHER nat

datatype BreakStrategy =
  kBreakStrategy_Greedy | kBreakStrategy_HighQuality | kBreakStrategy_Balanced

datatype HyphenationFrequency =
  kHyphenationFrequency_None | kHyphenationFrequency_Normal | kHyphenationFrequency_Full

record MinikinExtent =
  ascent :: real
  descent :: real
  line_gap :: real

definition zeroExtent :: MinikinExtent where
  "zeroExtent = \<lparr>ascent = 0, descent = 0, line_gap = 0\<rparr>"

text \<open>
  Modelled from the spec: \<^verbatim>\<open>MinikinExtent::extendBy\<close> is defined in MinikinFont.h, which is
  not among the sources. The spec: "combine \<^verbatim>\<open>extendBy\<close> that takes the maximum of ascent,
  the maximum of descent, and the maximum of lineGap".
\<close>
definition extendBy :: "MinikinExtent \<Rightarrow> MinikinExtent \<Rightarrow> MinikinExtent" where
  "extendBy a e =
     \<lparr>ascent = max (ascent a) (ascent e),
      descent = max (descent a) (descent e),
      line_gap = max (line_gap a) (line_gap e)\<rparr>"

text \<open>
  The struct \<^verbatim>\<open>Candidate\<close>; the fields and their order are those of the initialiser in
  \<^verbatim>\<open>setText\<close>.
\<close>
record Candidate =
  offset :: nat
  prev :: nat
  preBreak :: real
  postBreak :: real
  penalty :: real
  score :: real
  preSpaceCount :: nat
  postSpaceCount :: nat
  extent :: MinikinExtent
  hyphenType :: HyphenationType

text \<open>
  The word segmenter is an external collaborator. Its state is the boundary it stands at
  (\<open>None\<close> is ICU's DONE) and the boundaries still to come; each boundary carries what
  \<^verbatim>\<open>wordStart()\<close>, \<^verbatim>\<open>wordEnd()\<close> and \<^verbatim>\<open>breakBadness()\<close> answer there.
\<close>
record Boundary =
  bOffset :: nat
  bWordStart :: nat
  bWordEnd :: nat
  bBadness :: real

record 'loc WordBreaker =
  wbLocale :: 'loc
  wbCurrent :: "Boundary option"
  wbPending :: "Boundary list"

definition wbNext :: "'loc WordBreaker \<Rightarrow> 'loc WordBreaker" where
  "wbNext wb =
     (case wbPending wb of
        [] \<Rightarrow> wb\<lparr>wbCurrent := None\<rparr>
      | b # bs \<Rightarrow> wb\<lparr>wbCurrent := Some b, wbPending := bs\<rparr>)"

definition wbCurrentOffset :: "'loc WordBreaker \<Rightarrow> nat option" where
  "wbCurrentOffset wb = map_option bOffset (wbCurrent wb)"

text \<open>The paint, as far as this file reads and writes it.\<close>
record MinikinPaint =
  size_paint :: real
  scaleX :: real
  hyphenEdit :: uint8

text \<open>
  What the file uses and does not define: \<^verbatim>\<open>isWordSpace\<close> (LayoutUtils.h), the static
  functions and the constant of \<^verbatim>\<open>HyphenEdit\<close> (Hyphenator.h), \<^verbatim>\<open>kTab_Shift\<close>
  (LineBreaker.h), the shaper \<^verbatim>\<open>Layout::measureText\<close>, which answers the width of a range
  and the advances and extents of its code units, the boundaries the segmenter finds
  in a text, and ICU's \<^verbatim>\<open>Locale::createFromName\<close>, \<^verbatim>\<open>isBogus\<close> and \<^verbatim>\<open>getRoot\<close>. They are
  parameters of the model.
\<close>
record ('loc, 'font) Externals =
  isWordSpace :: "uint16 \<Rightarrow> bool"
  editForThisLine :: "HyphenationType \<Rightarrow> uint8"
  editForNextLine :: "HyphenationType \<Rightarrow> uint8"
  NO_EDIT :: uint8
  kTab_Shift :: nat
  measureText :: "uint16 list \<Rightarrow> nat \<Rightarrow> nat \<Rightarrow> bool \<Rightarrow> 'font \<Rightarrow> MinikinPaint
                    \<Rightarrow> real \<times> real list \<times> MinikinExtent list"
  segment :: "'loc \<Rightarrow> uint16 list \<Rightarrow> Boundary list"
  createFromName :: "string \<Rightarrow> 'loc"
  isBogus :: "'loc \<Rightarrow> bool"
  getRoot :: "'loc"

text \<open>
  The members of the class \<^verbatim>\<open>LineBreaker\<close>. A hyphenator is its method \<^verbatim>\<open>hyphenate\<close>, from
  a locale and a word to one entry for each code unit; \<^verbatim>\<open>mTabStops\<close> is its \<^verbatim>\<open>nextTab\<close>,
  the line-width delegate its \<^verbatim>\<open>getLineWidth\<close>. A null pointer is \<open>None\<close>.
\<close>
record 'loc LineBreaker =
  mWordBreaker :: "'loc WordBreaker"
  mLocale :: 'loc
  mTextBuf :: "uint16 list"
  mCharWidths :: "real list"
  mCharExtents :: "MinikinExtent list"
  mHyphenator :: "('loc \<Rightarrow> uint16 list \<Rightarrow> HyphenationType list) option"
  mHyphBuf :: "HyphenationType list"
  mTabStops :: "real \<Rightarrow> real"
  mLineWidthDelegate :: "(nat \<Rightarrow> real) option"
  mCandidates :: "Candidate list"
  mBreaks :: "int list"
  mWidths :: "real list"
  mAscents :: "real list"
  mDescents :: "real list"
  mFlags :: "int32 list"
  mWidth :: real
  mStrategy :: BreakStrategy
  mHyphenationFrequency :: HyphenationFrequency
  mJustified :: bool
  mLinePenalty :: real
  mLastBreak :: nat
  mBestBreak :: nat
  mBestScore :: real
  mPreBreak :: real
  mLastHyphenation :: uint8
  mFirstTabIndex :: int
  mSpaceCount :: nat

subsection \<open>setText and finish\<close>

definition setText :: "('loc, 'font) Externals \<Rightarrow> 'loc LineBreaker \<Rightarrow> 'loc LineBreaker" where
  "setText ext s =
     (let wb = (mWordBreaker s)
                 \<lparr>wbCurrent := Some \<lparr>bOffset = 0, bWordStart = 0, bWordEnd = 0, bBadness = 0\<rparr>,
                  wbPending := segment ext (wbLocale (mWordBreaker s)) (mTextBuf s)\<rparr>;
          cand = \<lparr>offset = 0, prev = 0, preBreak = 0, postBreak = 0, penalty = 0, score = 0,
                  preSpaceCount = 0, postSpaceCount = 0, extent = zeroExtent,
                  hyphenType = DONT_BREAK\<rparr>
      in s\<lparr>mWordBreaker := wbNext wb,
           mCandidates := [cand],
           mBreaks := [], mWidths := [], mAscents := [], mDescents := [], mFlags := [],
           mLastBreak := 0, mBestBreak := 0, mBestScore := SCORE_INFTY, mPreBreak := 0,
           mLastHyphenation := NO_EDIT ext, mFirstTabIndex := INT_MAX, mSpaceCount := 0\<rparr>)"

text \<open>
  \<^verbatim>\<open>finish\<close>. Clearing a vector and shrinking it both leave the empty list; the contents
  of the text, width, extent and hyphenation buffers are dropped only above
  \<^verbatim>\<open>MAX_TEXT_BUF_RETAIN\<close>. The segmenter's own \<^verbatim>\<open>finish\<close> lets go of the text, so it
  stands at no boundary afterwards.
\<close>
definition finish :: "'loc LineBreaker \<Rightarrow> 'loc LineBreaker" where
  "finish s =
     (let s1 = s\<lparr>mWordBreaker := (mWordBreaker s)\<lparr>wbCurrent := None, wbPending := []\<rparr>,
                 mWidth := 0,
                 mCandidates := [],
                 mBreaks := [], mWidths := [], mAscents := [], mDescents := [], mFlags := []\<rparr>;
          s2 = (if length (mTextBuf s1) > MAX_TEXT_BUF_RETAIN
                then s1\<lparr>mTextBuf := [], mCharWidths := [], mCharExtents := [], mHyphBuf := []\<rparr>
                else s1)
      in s2\<lparr>mStrategy := kBreakStrategy_Greedy,
            mHyphenationFrequency := kHyphenationFrequency_Normal,
            mLinePenalty := 0,
            mJustified := False,
            mLineWidthDelegate := None\<rparr>)"

subsection \<open>The greedy breaker\<close>

definition currentLineWidth :: "'loc LineBreaker \<Rightarrow> real" where
  "currentLineWidth s = the (mLineWidthDelegate s) (length (mBreaks s))"

text \<open>\<^verbatim>\<open>computeMaxExtent(start, end)\<close> over the candidates, both ends included.\<close>
definition computeMaxExtent :: "Candidate list \<Rightarrow> nat \<Rightarrow> nat \<Rightarrow> MinikinExtent" where
  "computeMaxExtent cands start end =
     fold (\<lambda>j res. extendBy res (extent (cands ! j))) [start..<end] (extent (cands ! end))"

definition pushBreak ::
  "('loc, 'font) Externals \<Rightarrow> 'loc LineBreaker \<Rightarrow> int \<Rightarrow> real \<Rightarrow> MinikinExtent \<Rightarrow> uint8
     \<Rightarrow> 'loc LineBreaker" where
  "pushBreak ext s off w e hy =
     (let brk = mBreaks s @ [off];
          flags = (if mFirstTabIndex s < last brk then push_bit (kTab_Shift ext) (1 :: int32) else 0)
                    OR ucast hy
      in s\<lparr>mBreaks := brk,
           mWidths := mWidths s @ [w],
           mAscents := mAscents s @ [ascent e],
           mDescents := mDescents s @ [descent e],
           mFlags := mFlags s @ [flags],
           mFirstTabIndex := INT_MAX\<rparr>)"

definition pushGreedyBreak :: "('loc, 'font) Externals \<Rightarrow> 'loc LineBreaker \<Rightarrow> 'loc LineBreaker" where
  "pushGreedyBreak ext s =
     (let bestCandidate = mCandidates s ! mBestBreak s;
          s1 = pushBreak ext s (int (offset bestCandidate)) (postBreak bestCandidate - mPreBreak s)
                 (computeMaxExtent (mCandidates s) (mLastBreak s + 1) (mBestBreak s))
                 (mLastHyphenation s OR editForThisLine ext (hyphenType bestCandidate))
      in s1\<lparr>mBestScore := SCORE_INFTY,
            mLastBreak := mBestBreak s1,
            mPreBreak := preBreak bestCandidate,
            mLastHyphenation := editForNextLine ext (hyphenType bestCandidate)\<rparr>)"

text \<open>The rescan of the open range \<open>(mLastBreak, candIndex)\<close> inside the while loop.\<close>
definition rescan :: "'loc LineBreaker \<Rightarrow> nat \<Rightarrow> nat \<Rightarrow> 'loc LineBreaker" where
  "rescan s from to =
     fold (\<lambda>i t. if penalty (mCandidates t ! i) \<le> mBestScore t
                  then t\<lparr>mBestBreak := i, mBestScore := penalty (mCandidates t ! i)\<rparr>
                  else t)
          [from..<to] s"

definition overflows :: "'loc LineBreaker \<Rightarrow> Candidate \<Rightarrow> bool" where
  "overflows s cand \<longleftrightarrow> postBreak cand - mPreBreak s > currentLineWidth s"

definition breakHereIfNoneFound :: "'loc LineBreaker \<Rightarrow> nat \<Rightarrow> 'loc LineBreaker" where
  "breakHereIfNoneFound s candIndex =
     (if mBestBreak s = mLastBreak s then s\<lparr>mBestBreak := candIndex\<rparr> else s)"

definition whileMeasure :: "nat \<Rightarrow> 'loc LineBreaker \<Rightarrow> nat" where
  "whileMeasure candIndex s =
     (if mBestBreak s \<noteq> mLastBreak s then candIndex + 2
      else if mLastBreak s < candIndex then candIndex - mLastBreak s + 1
      else if mLastBreak s = candIndex then 0 else 1)"

lemma rescan_keeps:
  "mLastBreak (rescan s a b) = mLastBreak s"
  "mCandidates (rescan s a b) = mCandidates s"
  "mPreBreak (rescan s a b) = mPreBreak s"
  "mBreaks (rescan s a b) = mBreaks s"
  "mLineWidthDelegate (rescan s a b) = mLineWidthDelegate s"
  unfolding rescan_def by (induction b) simp_all

lemma rescan_mBestBreak:
  "mBestBreak (rescan s a b) = mBestBreak s \<or> (a \<le> mBestBreak (rescan s a b) \<and> mBestBreak (rescan s a b) < b)"
  unfolding rescan_def by (induction b) auto

lemma pushGreedyBreak_indices:
  "mLastBreak (pushGreedyBreak ext s) = mBestBreak s"
  "mBestBreak (pushGreedyBreak ext s) = mBestBreak s"
  by (simp_all add: pushGreedyBreak_def pushBreak_def Let_def)

lemma whileMeasure_decreases:
  assumes "mLastBreak s \<noteq> candIndex"
  shows "whileMeasure candIndex
           (pushGreedyBreak ext (breakHereIfNoneFound (rescan s (mLastBreak s + 1) candIndex) candIndex))
         < whileMeasure candIndex s"
proof -
  let ?r = "rescan s (mLastBreak s + 1) candIndex"
  let ?b = "breakHereIfNoneFound ?r candIndex"
  let ?B = "mBestBreak ?b"
  have after: "whileMeasure candIndex (pushGreedyBreak ext ?b)
        = (if ?B < candIndex then candIndex - ?B + 1 else if ?B = candIndex then 0 else 1)"
    by (simp add: whileMeasure_def pushGreedyBreak_indices)
  show ?thesis
  proof (cases "mBestBreak s = mLastBreak s")
    case False
    then have "whileMeasure candIndex s = candIndex + 2" by (simp add: whileMeasure_def)
    with after show ?thesis by auto
  next
    case True
    from rescan_mBestBreak [of s "mLastBreak s + 1" candIndex]
    consider "mBestBreak ?r = mLastBreak s"
      | "mLastBreak s + 1 \<le> mBestBreak ?r" "mBestBreak ?r < candIndex"
      using True by auto
    then show ?thesis
    proof cases
      case 1
      then have "?B = candIndex" by (simp add: breakHereIfNoneFound_def rescan_keeps)
      with after assms True show ?thesis by (auto simp: whileMeasure_def)
    next
      case 2
      then have "?B = mBestBreak ?r" by (simp add: breakHereIfNoneFound_def rescan_keeps)
      with after 2 True show ?thesis by (auto simp: whileMeasure_def)
    qed
  qed
qed

text \<open>The while loop of \<^verbatim>\<open>addCandidate\<close>.\<close>
function addCandidate_while ::
  "('loc, 'font) Externals \<Rightarrow> Candidate \<Rightarrow> nat \<Rightarrow> 'loc LineBreaker \<Rightarrow> 'loc LineBreaker" where
  "addCandidate_while ext cand candIndex s =
     (if mLastBreak s \<noteq> candIndex \<and> overflows s cand
      then addCandidate_while ext cand candIndex
             (pushGreedyBreak ext
                (breakHereIfNoneFound (rescan s (mLastBreak s + 1) candIndex) candIndex))
      else s)"
  by pat_completeness auto
termination
proof (relation "measure (\<lambda>(ext, cand, candIndex, s). whileMeasure candIndex s)", goal_cases)
  case 1
  show ?case by simp
next
  case (2 ext cand candIndex s)
  then show ?case using whileMeasure_decreases [of s candIndex ext] by simp
qed

declare addCandidate_while.simps [simp del]

definition addCandidate ::
  "('loc, 'font) Externals \<Rightarrow> 'loc LineBreaker \<Rightarrow> Candidate \<Rightarrow> 'loc LineBreaker" where
  "addCandidate ext s cand =
     (let candIndex = length (mCandidates s);
          s1 = s\<lparr>mCandidates := mCandidates s @ [cand]\<rparr>;
          s2 = (if overflows s1 cand
                then pushGreedyBreak ext (breakHereIfNoneFound s1 candIndex)
                else s1);
          s3 = addCandidate_while ext cand candIndex s2
      in if penalty cand \<le> mBestScore s3
         then s3\<lparr>mBestBreak := candIndex, mBestScore := penalty cand\<rparr>
         else s3)"

definition computeBreaksGreedy ::
  "('loc, 'font) Externals \<Rightarrow> 'loc LineBreaker \<Rightarrow> 'loc LineBreaker" where
  "computeBreaksGreedy ext s =
     (let nCand = length (mCandidates s)
      in if nCand = 1 \<or> mLastBreak s \<noteq> nCand - 1
         then pushBreak ext s (int (offset (mCandidates s ! (nCand - 1))))
                (postBreak (mCandidates s ! (nCand - 1)) - mPreBreak s)
                (computeMaxExtent (mCandidates s) (mLastBreak s + 1) (nCand - 1))
                (mLastHyphenation s)
         else s)"

subsection \<open>Desperate breaks\<close>

text \<open>
  The local \<^verbatim>\<open>cand\<close> of \<^verbatim>\<open>addWordBreak\<close> is declared without an initialiser; \<^verbatim>\<open>prev\<close> and
  \<^verbatim>\<open>score\<close>, which the function never assigns, are 0 here.
\<close>
definition desperateCandidate ::
  "'loc LineBreaker \<Rightarrow> nat \<Rightarrow> real \<Rightarrow> nat \<Rightarrow> Candidate" where
  "desperateCandidate s i width postSpaceCount' =
     \<lparr>offset = i, prev = 0, preBreak = width, postBreak = width,
      penalty = SCORE_DESPERATE, score = 0,
      preSpaceCount = postSpaceCount', postSpaceCount = postSpaceCount',
      extent = mCharExtents s ! i, hyphenType = BREAK_AND_DONT_INSERT_HYPHEN\<rparr>"

text \<open>The desperate-break loop; its state is the engine and the running \<^verbatim>\<open>width\<close>.\<close>
definition desperateLoop ::
  "('loc, 'font) Externals \<Rightarrow> nat \<Rightarrow> nat \<Rightarrow> nat \<Rightarrow> 'loc LineBreaker \<times> real
     \<Rightarrow> 'loc LineBreaker \<times> real" where
  "desperateLoop ext postSpaceCount' from to st =
     fold (\<lambda>i (s, width).
             let w = mCharWidths s ! i
             in if w > 0
                then (addCandidate ext s (desperateCandidate s i width postSpaceCount'), width + w)
                else (s, width))
          [from..<to] st"

definition addWordBreak ::
  "('loc, 'font) Externals \<Rightarrow> 'loc LineBreaker \<Rightarrow> nat \<Rightarrow> real \<Rightarrow> real \<Rightarrow> nat \<Rightarrow> nat
     \<Rightarrow> MinikinExtent \<Rightarrow> real \<Rightarrow> HyphenationType \<Rightarrow> 'loc LineBreaker" where
  "addWordBreak ext s offset' preBreak' postBreak' preSpaceCount' postSpaceCount' extent'
       penalty' hyph =
     (let width = preBreak (last (mCandidates s));
          s1 = (if postBreak' - width > currentLineWidth s
                then let i = offset (last (mCandidates s));
                         width1 = width + mCharWidths s ! i
                     in fst (desperateLoop ext postSpaceCount' (i + 1) offset' (s, width1))
                else s);
          cand = \<lparr>offset = offset', prev = 0, preBreak = preBreak', postBreak = postBreak',
                  penalty = penalty', score = 0,
                  preSpaceCount = preSpaceCount', postSpaceCount = postSpaceCount',
                  extent = extent', hyphenType = hyph\<rparr>
      in addCandidate ext s1 cand)"

subsection \<open>The optimal breaker\<close>

definition getSpaceWidth :: "('loc, 'font) Externals \<Rightarrow> 'loc LineBreaker \<Rightarrow> real" where
  "getSpaceWidth ext s =
     (case find (\<lambda>i. isWordSpace ext (mTextBuf s ! i)) [0..<length (mTextBuf s)] of
        Some i \<Rightarrow> mCharWidths s ! i
      | None \<Rightarrow> 0)"

text \<open>The locals of the loop over \<^verbatim>\<open>j\<close> that outlive one iteration.\<close>
record DPState =
  active :: nat
  best :: real
  bestPrev :: nat
  width :: real
  leftEdge :: real
  bestHope :: real
  lineNumberLast :: nat

text \<open>The difference of two \<^verbatim>\<open>size_t\<close>, which wraps around at \<open>2^64\<close>.\<close>
definition size_t_minus :: "nat \<Rightarrow> nat \<Rightarrow> nat" where
  "size_t_minus a b = (2 ^ 64 + a - b) mod 2 ^ 64"

text \<open>\<^verbatim>\<open>widthScore\<close> and \<^verbatim>\<open>additionalPenalty\<close> for a line from candidate \<open>j\<close> to \<open>i\<close>.\<close>
definition lineScore ::
  "'loc LineBreaker \<Rightarrow> Candidate list \<Rightarrow> real \<Rightarrow> bool \<Rightarrow> nat \<Rightarrow> nat \<Rightarrow> real \<Rightarrow> real \<times> real" where
  "lineScore s cands maxShrink atEnd i j delta =
     (if (atEnd \<or> \<not> mJustified s) \<and> delta < 0 then (SCORE_OVERFULL, 0)
      else if atEnd \<and> mStrategy s \<noteq> kBreakStrategy_Balanced
      then (0, LAST_LINE_PENALTY_MULTIPLIER * penalty (cands ! j))
      else if delta < 0
      then (if - delta < maxShrink *
                 real (size_t_minus (postSpaceCount (cands ! i)) (preSpaceCount (cands ! j)))
            then (delta * delta * SHRINK_PENALTY_MULTIPLIER, 0)
            else (SCORE_OVERFULL, 0))
      else (delta * delta, 0))"

text \<open>One iteration of the loop over \<^verbatim>\<open>j\<close>, the candidates for the beginning of the line.\<close>
definition innerBody ::
  "'loc LineBreaker \<Rightarrow> Candidate list \<Rightarrow> nat list \<Rightarrow> real \<Rightarrow> bool \<Rightarrow> nat \<Rightarrow> nat \<Rightarrow> DPState
     \<Rightarrow> DPState" where
  "innerBody s cands lineNumbers maxShrink atEnd i j st =
     (let lineNumber = lineNumbers ! j;
          st1 = (if lineNumber \<noteq> lineNumberLast st
                 then (let widthNew = the (mLineWidthDelegate s) lineNumber;
                           st' = (if widthNew \<noteq> width st
                                  then st\<lparr>leftEdge := postBreak (cands ! i) - width st,
                                          bestHope := 0,
                                          width := widthNew\<rparr>
                                  else st)
                       in st'\<lparr>lineNumberLast := lineNumber\<rparr>)
                 else st);
          jScore = score (cands ! j)
      in if jScore + bestHope st1 \<ge> best st1 then st1
         else (let delta = preBreak (cands ! j) - leftEdge st1;
                   (widthScore, additionalPenalty) = lineScore s cands maxShrink atEnd i j delta;
                   st2 = (if delta < 0 then st1\<lparr>active := j + 1\<rparr>
                          else st1\<lparr>bestHope := widthScore\<rparr>);
                   score' = jScore + widthScore + additionalPenalty
               in if score' \<le> best st2 then st2\<lparr>best := score', bestPrev := j\<rparr> else st2))"

text \<open>
  One iteration of the loop over \<^verbatim>\<open>i\<close>, the candidates for the end of the line. What it
  hands on is the candidates, \<^verbatim>\<open>lineNumbers\<close> and \<^verbatim>\<open>active\<close>.
\<close>
definition outerBody ::
  "'loc LineBreaker \<Rightarrow> real \<Rightarrow> nat \<Rightarrow> nat \<Rightarrow> Candidate list \<times> nat list \<times> nat
     \<Rightarrow> Candidate list \<times> nat list \<times> nat" where
  "outerBody s maxShrink nCand i = (\<lambda>(cands, lineNumbers, active').
     (let atEnd = (i = nCand - 1);
          lineNumberLast' = lineNumbers ! active';
          width' = the (mLineWidthDelegate s) lineNumberLast';
          st0 = \<lparr>active = active', best = SCORE_INFTY, bestPrev = 0, width = width',
                 leftEdge = postBreak (cands ! i) - width', bestHope = 0,
                 lineNumberLast = lineNumberLast'\<rparr>;
          st = fold (innerBody s cands lineNumbers maxShrink atEnd i) [active'..<i] st0
      in (cands[i := (cands ! i)\<lparr>score := best st + penalty (cands ! i) + mLinePenalty s,
                                prev := bestPrev st\<rparr>],
          lineNumbers @ [lineNumbers ! bestPrev st + 1],
          active st)))"

definition maxShrinkOf :: "('loc, 'font) Externals \<Rightarrow> 'loc LineBreaker \<Rightarrow> real" where
  "maxShrinkOf ext s = (if mJustified s then SHRINKABILITY * getSpaceWidth ext s else 0)"

text \<open>The forward pass of \<^verbatim>\<open>computeBreaksOptimal\<close>, before \<^verbatim>\<open>finishBreaksOptimal\<close>.\<close>
definition optimalPass ::
  "('loc, 'font) Externals \<Rightarrow> 'loc LineBreaker \<Rightarrow> Candidate list \<times> nat list \<times> nat" where
  "optimalPass ext s =
     (let nCand = length (mCandidates s)
      in fold (outerBody s (maxShrinkOf ext s) nCand) [1..<nCand] (mCandidates s, [0], 0))"

text \<open>
  The loop of \<^verbatim>\<open>finishBreaksOptimal\<close> follows the \<^verbatim>\<open>prev\<close> links until it reaches 0; on
  links that do not lead there it does not return, which is \<open>None\<close>.
\<close>
partial_function (option) backtrace ::
  "('loc, 'font) Externals \<Rightarrow> nat \<Rightarrow> 'loc LineBreaker \<Rightarrow> 'loc LineBreaker option" where
  "backtrace ext i s =
     (if i > 0
      then backtrace ext (prev (mCandidates s ! i))
             (s\<lparr>mBreaks := mBreaks s @ [int (offset (mCandidates s ! i))],
                mWidths := mWidths s @
                  [postBreak (mCandidates s ! i) - preBreak (mCandidates s ! prev (mCandidates s ! i))],
                mAscents := mAscents s @
                  [ascent (computeMaxExtent (mCandidates s) (prev (mCandidates s ! i) + 1) i)],
                mDescents := mDescents s @
                  [descent (computeMaxExtent (mCandidates s) (prev (mCandidates s ! i) + 1) i)],
                mFlags := mFlags s @
                  [ucast (editForThisLine ext (hyphenType (mCandidates s ! i)) OR
                     (if prev (mCandidates s ! i) > 0
                      then editForNextLine ext (hyphenType (mCandidates s ! prev (mCandidates s ! i)))
                      else 0))]\<rparr>)
      else Some s)"

declare backtrace.simps [code]

definition finishBreaksOptimal ::
  "('loc, 'font) Externals \<Rightarrow> 'loc LineBreaker \<Rightarrow> 'loc LineBreaker option" where
  "finishBreaksOptimal ext s =
     (case backtrace ext (length (mCandidates s) - 1)
             (s\<lparr>mBreaks := [], mWidths := [], mAscents := [], mDescents := [], mFlags := []\<rparr>) of
        None \<Rightarrow> None
      | Some s1 \<Rightarrow>
          Some (s1\<lparr>mBreaks := rev (mBreaks s1), mWidths := rev (mWidths s1),
                   mFlags := rev (mFlags s1)\<rparr>))"

definition computeBreaksOptimal ::
  "('loc, 'font) Externals \<Rightarrow> 'loc LineBreaker \<Rightarrow> 'loc LineBreaker option" where
  "computeBreaksOptimal ext s =
     finishBreaksOptimal ext (s\<lparr>mCandidates := fst (optimalPass ext s)\<rparr>)"

text \<open>\<^verbatim>\<open>computeBreaks\<close> returns the number of breaks; the engine is returned with it.\<close>
definition computeBreaks ::
  "('loc, 'font) Externals \<Rightarrow> 'loc LineBreaker \<Rightarrow> (nat \<times> 'loc LineBreaker) option" where
  "computeBreaks ext s =
     map_option (\<lambda>s'. (length (mBreaks s'), s'))
       (if mStrategy s = kBreakStrategy_Greedy then Some (computeBreaksGreedy ext s)
        else computeBreaksOptimal ext s)"

subsection \<open>Line-end spaces and the hyphenation buffer\<close>

definition isLineEndSpace :: "uint16 \<Rightarrow> bool" where
  "isLineEndSpace c \<longleftrightarrow>
     c = 0x000A \<or> c = 0x0020 \<or> c = 0x1680 \<or> (0x2000 \<le> c \<and> c \<le> 0x200A \<and> c \<noteq> 0x2007) \<or>
     c = 0x205F \<or> c = 0x3000"

text \<open>
  One iteration of the loop of \<^verbatim>\<open>hyphenate\<close>, for \<open>i\<close> from 0 to \<open>len\<close> included. The state
  is \<^verbatim>\<open>inWord\<close>, \<^verbatim>\<open>wordStart\<close> and \<^verbatim>\<open>mHyphBuf\<close>. The hyphenator \<open>h\<close> is read by its
  contract: it appends its entries for the given word to the vector it is handed.
\<close>
definition hyphenateBody ::
  "(uint16 list \<Rightarrow> HyphenationType list) \<Rightarrow> uint16 list \<Rightarrow> nat \<Rightarrow> nat
     \<Rightarrow> bool \<times> nat \<times> HyphenationType list \<Rightarrow> bool \<times> nat \<times> HyphenationType list" where
  "hyphenateBody h str len i = (\<lambda>(inWord, wordStart, buf).
     if i = len \<or> str ! i = CHAR_NBSP
     then (let buf1 =
                 (if inWord
                  then (let wordLen = i - wordStart
                        in if wordLen \<le> LONGEST_HYPHENATED_WORD
                           then (if wordStart = 0
                                 then buf @ h (take wordLen str)
                                 else (let wordVec = h (take wordLen (drop wordStart str))
                                       in buf @ wordVec))
                           else buf @ replicate wordLen DONT_BREAK)
                  else buf);
               buf2 = (if i < len then buf1 @ [DONT_BREAK] else buf1)
           in (False, wordStart, buf2))
     else if \<not> inWord then (True, i, buf)
     else (inWord, wordStart, buf))"

definition hyphenateLoop ::
  "(uint16 list \<Rightarrow> HyphenationType list) \<Rightarrow> uint16 list \<Rightarrow> HyphenationType list" where
  "hyphenateLoop h str =
     snd (snd (fold (hyphenateBody h str (length str)) [0..<length str + 1] (False, 0, [])))"

text \<open>\<^verbatim>\<open>hyphenate(str, len)\<close>, the range given as the list of its code units.\<close>
definition hyphenate :: "'loc LineBreaker \<Rightarrow> uint16 list \<Rightarrow> 'loc LineBreaker" where
  "hyphenate s str = s\<lparr>mHyphBuf := hyphenateLoop (the (mHyphenator s) (mLocale s)) str\<rparr>"

subsection \<open>The candidate generator\<close>

text \<open>The locals of \<^verbatim>\<open>addStyleRun\<close> that its loop carries, and the paint it writes to.\<close>
record RunLocals =
  paint_run :: "MinikinPaint option"
  current :: "nat option"
  afterWord :: nat
  lastBreak :: nat
  lastBreakWidth :: real
  postBreak_run :: real
  postSpaceCount_run :: nat
  extent_run :: MinikinExtent

text \<open>The first half of the loop body: the code unit at \<open>i\<close>.\<close>
definition charStep ::
  "('loc, 'font) Externals \<Rightarrow> nat \<Rightarrow> 'loc LineBreaker \<times> RunLocals \<Rightarrow> 'loc LineBreaker \<times> RunLocals" where
  "charStep ext i = (\<lambda>(s, loc).
     (let c = mTextBuf s ! i
      in if c = CHAR_TAB
         then (s\<lparr>mWidth := mPreBreak s + mTabStops s (mWidth s - mPreBreak s),
                 mFirstTabIndex := (if mFirstTabIndex s = INT_MAX then int i else mFirstTabIndex s),
                 mStrategy := kBreakStrategy_Greedy\<rparr>,
               loc)
         else (let s1 = (if isWordSpace ext c then s\<lparr>mSpaceCount := mSpaceCount s + 1\<rparr> else s);
                   s2 = s1\<lparr>mWidth := mWidth s1 + mCharWidths s1 ! i\<rparr>;
                   loc1 = loc\<lparr>extent_run := extendBy (extent_run loc) (mCharExtents s2 ! i)\<rparr>
               in if \<not> isLineEndSpace c
                  then (s2, loc1\<lparr>postBreak_run := mWidth s2,
                                 postSpaceCount_run := mSpaceCount s2,
                                 afterWord := i + 1\<rparr>)
                  else (s2, loc1))))"

text \<open>
  One iteration of the loop that measures the hyphenated substrings, for \<open>j\<close> in the word.
  The counts \<open>j - lastBreak\<close> and \<open>afterWord - j\<close> are differences of \<^verbatim>\<open>size_t\<close> that the
  segmenter's contract keeps from going below zero.
\<close>
definition hyphenBreakBody ::
  "('loc, 'font) Externals \<Rightarrow> 'font \<Rightarrow> bool \<Rightarrow> real \<Rightarrow> nat \<Rightarrow> nat
     \<Rightarrow> 'loc LineBreaker \<times> RunLocals \<Rightarrow> 'loc LineBreaker \<times> RunLocals" where
  "hyphenBreakBody ext font isRtl hyphenPenalty wordStart j = (\<lambda>(s, loc).
     (let hyph = mHyphBuf s ! (j - wordStart)
      in if hyph \<noteq> DONT_BREAK
         then (let p1 = (the (paint_run loc))\<lparr>hyphenEdit := editForThisLine ext hyph\<rparr>;
                   firstPartWidth =
                     fst (measureText ext (mTextBuf s) (lastBreak loc) (j - lastBreak loc)
                            isRtl font p1);
                   hyphPostBreak = lastBreakWidth loc + firstPartWidth;
                   p2 = p1\<lparr>hyphenEdit := editForNextLine ext hyph\<rparr>;
                   secondPartWidth =
                     fst (measureText ext (mTextBuf s) j (afterWord loc - j) isRtl font p2);
                   hyphPreBreak = postBreak_run loc - secondPartWidth;
                   s1 = addWordBreak ext s j hyphPreBreak hyphPostBreak
                          (postSpaceCount_run loc) (postSpaceCount_run loc) (extent_run loc)
                          hyphenPenalty hyph
               in (s1, loc\<lparr>extent_run := zeroExtent,
                            paint_run := Some (p2\<lparr>hyphenEdit := NO_EDIT ext\<rparr>)\<rparr>))
         else (s, loc)))"

text \<open>The second half of the loop body: the word boundary after the code unit at \<open>i\<close>.\<close>
definition boundaryStep ::
  "('loc, 'font) Externals \<Rightarrow> 'font \<Rightarrow> bool \<Rightarrow> real \<Rightarrow> nat \<Rightarrow> nat \<Rightarrow> nat
     \<Rightarrow> 'loc LineBreaker \<times> RunLocals \<Rightarrow> 'loc LineBreaker \<times> RunLocals" where
  "boundaryStep ext font isRtl hyphenPenalty start end i = (\<lambda>(s, loc).
     if Some (i + 1) = current loc
     then (let cur = i + 1;
               wordStart = bWordStart (the (wbCurrent (mWordBreaker s)));
               wordEnd = bWordEnd (the (wbCurrent (mWordBreaker s)));
               (s1, loc1) =
                 (if paint_run loc \<noteq> None \<and> mHyphenator s \<noteq> None \<and>
                     mHyphenationFrequency s \<noteq> kHyphenationFrequency_None \<and>
                     wordStart \<ge> start \<and> wordEnd > wordStart
                  then fold (hyphenBreakBody ext font isRtl hyphenPenalty wordStart)
                         [wordStart..<wordEnd]
                         (hyphenate s (take (wordEnd - wordStart) (drop wordStart (mTextBuf s))), loc)
                  else (s, loc));
               (s2, loc2) =
                 (if paint_run loc1 \<noteq> None \<or> cur = end \<or> mCharWidths s1 ! cur > 0
                  then (let penalty' = hyphenPenalty * bBadness (the (wbCurrent (mWordBreaker s1)))
                        in (addWordBreak ext s1 cur (mWidth s1) (postBreak_run loc1)
                              (mSpaceCount s1) (postSpaceCount_run loc1) (extent_run loc1)
                              penalty' DONT_BREAK,
                            loc1\<lparr>extent_run := zeroExtent\<rparr>))
                  else (s1, loc1));
               wb = wbNext (mWordBreaker s2)
           in (s2\<lparr>mWordBreaker := wb\<rparr>,
               loc2\<lparr>lastBreak := cur, lastBreakWidth := mWidth s2,
                    current := wbCurrentOffset wb\<rparr>))
     else (s, loc))"

text \<open>Writing \<open>ys\<close> into \<open>xs\<close> from position \<open>n\<close> on, as the shaper does with its outputs.\<close>
definition overwrite :: "'a list \<Rightarrow> nat \<Rightarrow> 'a list \<Rightarrow> 'a list" where
  "overwrite xs n ys = take n xs @ ys @ drop (n + length ys) xs"

text \<open>
  \<^verbatim>\<open>addStyleRun\<close>; typeface and style are one argument, handed to the shaper as they come.
  The result is the returned width, the paint as the run leaves it, and the engine.
\<close>
definition addStyleRun ::
  "('loc, 'font) Externals \<Rightarrow> 'loc LineBreaker \<Rightarrow> MinikinPaint option \<Rightarrow> 'font \<Rightarrow> nat \<Rightarrow> nat \<Rightarrow> bool
     \<Rightarrow> real \<times> MinikinPaint option \<times> 'loc LineBreaker" where
  "addStyleRun ext s paint font start end isRtl =
     (let (width', hyphenPenalty, s1) =
            (case paint of
               None \<Rightarrow> (0, 0, s)
             | Some p \<Rightarrow>
                 (let (w, advances, extents) =
                        measureText ext (mTextBuf s) start (end - start) isRtl font p;
                      s' = s\<lparr>mCharWidths := overwrite (mCharWidths s) start advances,
                             mCharExtents := overwrite (mCharExtents s) start extents\<rparr>;
                      hp0 = 0.5 * size_paint p * scaleX p * the (mLineWidthDelegate s') 0;
                      hp1 = (if mHyphenationFrequency s' = kHyphenationFrequency_Normal
                             then hp0 * 4 else hp0)
                  in if mJustified s' then (w, hp1 * 0.25, s')
                     else (w, hp1,
                           s'\<lparr>mLinePenalty := max (mLinePenalty s') (hp1 * LINE_PENALTY_MULTIPLIER)\<rparr>)));
          loc0 = \<lparr>paint_run = paint,
                  current = wbCurrentOffset (mWordBreaker s1),
                  afterWord = start, lastBreak = start, lastBreakWidth = mWidth s1,
                  postBreak_run = mWidth s1, postSpaceCount_run = mSpaceCount s1,
                  extent_run = zeroExtent\<rparr>;
          (s2, loc) = fold (\<lambda>i st. boundaryStep ext font isRtl hyphenPenalty start end i
                                     (charStep ext i st))
                        [start..<end] (s1, loc0)
      in (width', paint_run loc, s2))"

text \<open>
  \<^verbatim>\<open>addReplacement\<close> calls \<^verbatim>\<open>addStyleRun\<close> without a paint; the null typeface and the default
  style it passes are the argument \<open>font\<close>, which the run never hands to the shaper.
\<close>
definition addReplacement ::
  "('loc, 'font) Externals \<Rightarrow> 'loc LineBreaker \<Rightarrow> 'font \<Rightarrow> nat \<Rightarrow> nat \<Rightarrow> real \<Rightarrow> 'loc LineBreaker" where
  "addReplacement ext s font start end width' =
     (let ws = fold (\<lambda>k xs. xs[k := 0]) [start + 1..<end] ((mCharWidths s)[start := width']);
          es = fold (\<lambda>k xs. xs[k := zeroExtent]) [start..<end] (mCharExtents s)
      in snd (snd (addStyleRun ext (s\<lparr>mCharWidths := ws, mCharExtents := es\<rparr>) None font
                     start end False)))"

subsection \<open>setLocales\<close>

text \<open>
  The loop over all locales but the last, with \<open>k\<close> iterations left. \<^verbatim>\<open>strchr\<close> answers
  the first comma of the rest of the string; when there is none it answers null and the
  source computes with it, which is undefined behaviour and \<open>None\<close> here. The result is
  \<^verbatim>\<open>goodLocaleFound\<close>, \<^verbatim>\<open>localeStart\<close> and the engine.
\<close>
fun setLocalesLoop ::
  "('loc, 'font) Externals \<Rightarrow> ('loc \<Rightarrow> uint16 list \<Rightarrow> HyphenationType list) option list
     \<Rightarrow> nat \<Rightarrow> nat \<Rightarrow> string \<Rightarrow> 'loc LineBreaker \<Rightarrow> (bool \<times> string \<times> 'loc LineBreaker) option" where
  "setLocalesLoop ext hyphenators 0 i localeStart s = Some (False, localeStart, s)"
| "setLocalesLoop ext hyphenators (Suc k) i localeStart s =
     (if CHR '','' \<notin> set localeStart then None
      else (let localeName = takeWhile (\<lambda>c. c \<noteq> CHR '','') localeStart;
                s1 = s\<lparr>mLocale := createFromName ext localeName\<rparr>
            in if \<not> isBogus ext (mLocale s1)
               then Some (True, localeStart, s1\<lparr>mHyphenator := hyphenators ! i\<rparr>)
               else setLocalesLoop ext hyphenators k (i + 1)
                      (tl (dropWhile (\<lambda>c. c \<noteq> CHR '','') localeStart)) s1))"

definition setLocales ::
  "('loc, 'font) Externals \<Rightarrow> 'loc LineBreaker \<Rightarrow> string
     \<Rightarrow> ('loc \<Rightarrow> uint16 list \<Rightarrow> HyphenationType list) option list \<Rightarrow> 'loc LineBreaker option" where
  "setLocales ext s locales hyphenators =
     (let numLocales = length hyphenators
      in case setLocalesLoop ext hyphenators (numLocales - 1) 0 locales s of
           None \<Rightarrow> None
         | Some (goodLocaleFound, localeStart, s1) \<Rightarrow>
             (let s2 = (if \<not> goodLocaleFound
                        then (let s' = s1\<lparr>mLocale := createFromName ext localeStart\<rparr>
                              in if isBogus ext (mLocale s')
                                 then s'\<lparr>mLocale := getRoot ext, mHyphenator := None\<rparr>
                                 else s'\<lparr>mHyphenator :=
                                          (if numLocales = 0 then None
                                           else hyphenators ! (numLocales - 1))\<rparr>)
                        else s1)
              in Some (s2\<lparr>mWordBreaker := (mWordBreaker s2)\<lparr>wbLocale := mLocale s2\<rparr>\<rparr>)))"

subsection \<open>Reference definitions\<close>

text \<open>
  The hyphenation buffer as the specification words it: the range is cut at the
  non-breaking spaces; a sub-word of at most \<^verbatim>\<open>LONGEST_HYPHENATED_WORD\<close> code units is
  classified by the hyphenator, a longer one is all \<open>DONT_BREAK\<close>, and each non-breaking
  space is one \<open>DONT_BREAK\<close>.
\<close>
definition classifySubWord ::
  "(uint16 list \<Rightarrow> HyphenationType list) \<Rightarrow> uint16 list \<Rightarrow> HyphenationType list" where
  "classifySubWord h w =
     (if length w \<le> LONGEST_HYPHENATED_WORD then h w else replicate (length w) DONT_BREAK)"

function (sequential) hyphenateBySubWords ::
  "(uint16 list \<Rightarrow> HyphenationType list) \<Rightarrow> uint16 list \<Rightarrow> HyphenationType list" where
  "hyphenateBySubWords h [] = []"
| "hyphenateBySubWords h (c # cs) =
     (if c = CHAR_NBSP then DONT_BREAK # hyphenateBySubWords h cs
      else classifySubWord h (c # takeWhile (\<lambda>x. x \<noteq> CHAR_NBSP) cs) @
           hyphenateBySubWords h (dropWhile (\<lambda>x. x \<noteq> CHAR_NBSP) cs))"
  by pat_completeness auto
termination
  by (relation "measure (\<lambda>(h, str). length str)")
     (auto simp: le_imp_less_Suc length_dropWhile_le)

text \<open>
  The choice of \<^verbatim>\<open>setLocales\<close> as the specification words it: the comma-separated list is
  split, the first name whose locale is not bogus is taken with the hyphenator at its
  position, and when no name is valid the root locale is taken with no hyphenator.
\<close>
function splitCommas :: "string \<Rightarrow> string list" where
  "splitCommas str =
     (if CHR '','' \<in> set str
      then takeWhile (\<lambda>c. c \<noteq> CHR '','') str #
           splitCommas (tl (dropWhile (\<lambda>c. c \<noteq> CHR '','') str))
      else [str])"
  by pat_completeness auto
termination
proof (relation "measure length", goal_cases)
  case 1
  show ?case by simp
next
  case (2 str)
  then have "dropWhile (\<lambda>c. c \<noteq> CHR '','') str \<noteq> []" by simp
  then have "length (tl (dropWhile (\<lambda>c. c \<noteq> CHR '','') str))
               < length (dropWhile (\<lambda>c. c \<noteq> CHR '','') str)"
    by (cases "dropWhile (\<lambda>c. c \<noteq> CHR '','') str") simp_all
  also have "\<dots> \<le> length str" by (rule length_dropWhile_le)
  finally show ?case by simp
qed

declare splitCommas.simps [simp del]

fun firstValid ::
  "('loc, 'font) Externals \<Rightarrow> (string \<times> 'h option) list \<Rightarrow> 'loc \<times> 'h option" where
  "firstValid ext [] = (getRoot ext, None)"
| "firstValid ext ((name, h) # rest) =
     (if \<not> isBogus ext (createFromName ext name) then (createFromName ext name, h)
      else firstValid ext rest)"









text \<open>
  The fields of a candidate that \<^verbatim>\<open>addWordBreak\<close> assigns, and the running width of its
  desperate-break loop when it reaches position \<open>i\<close>: the \<^verbatim>\<open>preBreak\<close> of the last
  candidate, the width of the code unit at its offset, and the positive widths after it.
\<close>
definition assignedFields ::
  "Candidate \<Rightarrow> nat \<times> real \<times> real \<times> real \<times> nat \<times> nat \<times> MinikinExtent \<times> HyphenationType" where
  "assignedFields c =
     (offset c, preBreak c, postBreak c, penalty c, preSpaceCount c, postSpaceCount c,
      extent c, hyphenType c)"

definition runningWidth :: "'loc LineBreaker \<Rightarrow> nat \<Rightarrow> real" where
  "runningWidth s i =
     preBreak (last (mCandidates s)) + mCharWidths s ! offset (last (mCandidates s)) +
     sum_list (map (\<lambda>k. mCharWidths s ! k)
                 (filter (\<lambda>k. mCharWidths s ! k > 0) [offset (last (mCandidates s)) + 1..<i]))"






subsection \<open>Invariants of the two dynamic programs\<close>








subsection \<open>A small host\<close>

text \<open>
  One call sequence of a host: \<^verbatim>\<open>setText\<close>, one \<^verbatim>\<open>addStyleRun\<close> over the whole buffer,
  \<^verbatim>\<open>computeBreaks\<close>.
\<close>
definition layoutOneRun ::
  "('loc, 'font) Externals \<Rightarrow> 'loc LineBreaker \<Rightarrow> MinikinPaint option \<Rightarrow> 'font
     \<Rightarrow> (nat \<times> 'loc LineBreaker) option" where
  "layoutOneRun ext s paint font =
     computeBreaks ext
       (snd (snd (addStyleRun ext (setText ext s) paint font 0 (length (mTextBuf s)) False)))"

text \<open>
  Collaborators for concrete paragraphs: a shaper that makes every code unit 10 wide and
  takes the extents from \<open>extentAt\<close>, a segmenter that answers the given boundaries, tab
  stops every 40, one line width for all lines.
\<close>
definition example_externals ::
  "Boundary list \<Rightarrow> (nat \<Rightarrow> MinikinExtent) \<Rightarrow> (unit, unit) Externals" where
  "example_externals boundaries extentAt =
     \<lparr>isWordSpace = (\<lambda>c. c = 0x0020 \<or> c = CHAR_NBSP),
      editForThisLine = (\<lambda>h. if h = DONT_BREAK then 0 else 1),
      editForNextLine = (\<lambda>h. if h = DONT_BREAK then 0 else 2),
      NO_EDIT = 0,
      kTab_Shift = 29,
      measureText = (\<lambda>buf start count isRtl font p.
         (10 * real count, replicate count 10, map extentAt [start..<start + count])),
      segment = (\<lambda>loc txt. boundaries),
      createFromName = (\<lambda>name. ()),
      isBogus = (\<lambda>loc. False),
      getRoot = ()\<rparr>"

definition example_engine_in ::
  "'loc \<Rightarrow> uint16 list \<Rightarrow> real \<Rightarrow> BreakStrategy \<Rightarrow> 'loc LineBreaker" where
  "example_engine_in loc txt lineWidth strategy =
     \<lparr>mWordBreaker = \<lparr>wbLocale = loc, wbCurrent = None, wbPending = []\<rparr>,
      mLocale = loc,
      mTextBuf = txt,
      mCharWidths = replicate (length txt) 0,
      mCharExtents = replicate (length txt) zeroExtent,
      mHyphenator = None,
      mHyphBuf = [],
      mTabStops = (\<lambda>x. (real_of_int \<lfloor>x / 40\<rfloor> + 1) * 40),
      mLineWidthDelegate = Some (\<lambda>line. lineWidth),
      mCandidates = [], mBreaks = [], mWidths = [], mAscents = [], mDescents = [], mFlags = [],
      mWidth = 0,
      mStrategy = strategy,
      mHyphenationFrequency = kHyphenationFrequency_Normal,
      mJustified = False,
      mLinePenalty = 0,
      mLastBreak = 0, mBestBreak = 0, mBestScore = 0, mPreBreak = 0,
      mLastHyphenation = 0, mFirstTabIndex = 0, mSpaceCount = 0\<rparr>"

definition example_engine :: "uint16 list \<Rightarrow> real \<Rightarrow> BreakStrategy \<Rightarrow> unit LineBreaker" where
  "example_engine = example_engine_in ()"

definition boundaryAt :: "nat \<Rightarrow> Boundary" where
  "boundaryAt n = \<lparr>bOffset = n, bWordStart = n, bWordEnd = n, bBadness = 0\<rparr>"

definition example_paint :: MinikinPaint where
  "example_paint = \<lparr>size_paint = 1, scaleX = 1, hyphenEdit = 0\<rparr>"

definition example_locals :: RunLocals where
  "example_locals =
     \<lparr>paint_run = None, current = Some 2, afterWord = 0, lastBreak = 0, lastBreakWidth = 0,
      postBreak_run = 0, postSpaceCount_run = 0, extent_run = zeroExtent\<rparr>"

text \<open>A space four wide and a letter ten wide, already measured.\<close>
definition example_space_letter :: "unit LineBreaker" where
  "example_space_letter =
     (example_engine [0x20, 0x61] 50 kBreakStrategy_Greedy)\<lparr>mCharWidths := [4, 10]\<rparr>"

text \<open>A hyphenator that allows a hyphen before the third code unit of every word.\<close>
definition example_hyphenator :: "unit \<Rightarrow> uint16 list \<Rightarrow> HyphenationType list" where
  "example_hyphenator loc w =
     map (\<lambda>i. if i = 2 then BREAK_AND_INSERT_HYPHEN else DONT_BREAK) [0..<length w]"

text \<open>
  Locales for concrete calls of \<^verbatim>\<open>setLocales\<close>: a locale is its name, and the names
  \<open>xx\<close> and the empty name are bogus.
\<close>
definition locale_externals :: "(string, unit) Externals" where
  "locale_externals =
     \<lparr>isWordSpace = (\<lambda>c. c = 0x0020 \<or> c = CHAR_NBSP),
      editForThisLine = (\<lambda>h. if h = DONT_BREAK then 0 else 1),
      editForNextLine = (\<lambda>h. if h = DONT_BREAK then 0 else 2),
      NO_EDIT = 0,
      kTab_Shift = 29,
      measureText = (\<lambda>buf start count isRtl font p.
         (10 * real count, replicate count 10, replicate count zeroExtent)),
      segment = (\<lambda>loc txt. []),
      createFromName = (\<lambda>name. name),
      isBogus = (\<lambda>loc. loc = ''xx'' \<or> loc = []),
      getRoot = ''root''\<rparr>"

definition hyphenator_A :: "string \<Rightarrow> uint16 list \<Rightarrow> HyphenationType list" where
  "hyphenator_A loc w = replicate (length w) DONT_BREAK"

definition hyphenator_B :: "string \<Rightarrow> uint16 list \<Rightarrow> HyphenationType list" where
  "hyphenator_B loc w = replicate (length w) BREAK_AND_INSERT_HYPHEN"



text \<open>
  Four measured code units, the third without width, on lines of width 25, after
  \<^verbatim>\<open>setText\<close>.
\<close>
definition example_word_state :: "unit LineBreaker" where
  "example_word_state =
     (setText (example_externals [boundaryAt 4] (\<lambda>i. zeroExtent))
        (example_engine [0x61, 0x62, 0x0301, 0x63] 25 kBreakStrategy_Greedy))
       \<lparr>mCharWidths := [10, 10, 0, 10]\<rparr>"


text \<open>
  The paragraph "aa bb cc" on lines of width 50 after \<^verbatim>\<open>setText\<close> and \<^verbatim>\<open>addStyleRun\<close>, and an
  engine with the same configuration that holds its candidates and its line penalty,
  which is all the optimal breaker reads.
\<close>
definition example_three_words :: "unit LineBreaker" where
  "example_three_words =
     snd (snd (addStyleRun (example_externals [boundaryAt 3, boundaryAt 6, boundaryAt 8] (\<lambda>i. zeroExtent))
                 (setText (example_externals [boundaryAt 3, boundaryAt 6, boundaryAt 8] (\<lambda>i. zeroExtent))
                    (example_engine [0x61, 0x61, 0x20, 0x62, 0x62, 0x20, 0x63, 0x63] 50
                       kBreakStrategy_HighQuality))
                 (Some example_paint) () 0 8 False))"


section \<open>Properties\<close>

subsection \<open>finish\<close>

text \<open>
  C10. \<^verbatim>\<open>finish\<close> empties the candidates, the five output vectors and the accumulated
  width, and it puts the configuration back to its defaults: strategy Greedy, hyphenation
  frequency Normal, not justified, line penalty 0, no line-width delegate. \<^verbatim>\<open>setText\<close> does
  not bring any of these back, so the host has to set them again for the next paragraph.
\<close>
theorem finish_resets_configuration:
  "mCandidates (finish s) = [] \<and> mBreaks (finish s) = [] \<and> mWidths (finish s) = [] \<and>
   mAscents (finish s) = [] \<and> mDescents (finish s) = [] \<and> mFlags (finish s) = [] \<and>
   mWidth (finish s) = 0 \<and>
   mStrategy (finish s) = kBreakStrategy_Greedy \<and>
   mHyphenationFrequency (finish s) = kHyphenationFrequency_Normal \<and>
   \<not> mJustified (finish s) \<and>
   mLinePenalty (finish s) = 0 \<and>
   mLineWidthDelegate (finish s) = None \<and>
   mStrategy (setText ext (finish s)) = kBreakStrategy_Greedy \<and>
   mHyphenationFrequency (setText ext (finish s)) = kHyphenationFrequency_Normal \<and>
   \<not> mJustified (setText ext (finish s)) \<and>
   mLinePenalty (setText ext (finish s)) = 0 \<and>
   mLineWidthDelegate (setText ext (finish s)) = None"
  by (simp add: finish_def setText_def Let_def)

subsection \<open>The empty paragraph\<close>

text \<open>
  C3. On the empty paragraph the optimal strategy returns no break at all, where the
  greedy strategy returns one break at offset 0 with width 0: \<^verbatim>\<open>computeBreaksGreedy\<close>
  pushes the final break when the sentinel is the only candidate, and the loop of
  \<^verbatim>\<open>finishBreaksOptimal\<close> does not run.
\<close>
theorem empty_paragraph_optimal_no_break:
  "map_option (\<lambda>(n, s). (n, mBreaks s, mWidths s))
     (layoutOneRun (example_externals [] (\<lambda>i. zeroExtent))
        (example_engine [] 50 kBreakStrategy_HighQuality) (Some example_paint) ())
     = Some (0, [], []) \<and>
   map_option (\<lambda>(n, s). (n, mBreaks s, mWidths s))
     (layoutOneRun (example_externals [] (\<lambda>i. zeroExtent))
        (example_engine [] 50 kBreakStrategy_Greedy) (Some example_paint) ())
     = Some (1, [0], [0])"
  by code_simp

subsection \<open>The order of the optimal breaker's outputs\<close>

text \<open>
  C2. \<^verbatim>\<open>finishBreaksOptimal\<close> reverses \<^verbatim>\<open>mBreaks\<close>, \<^verbatim>\<open>mWidths\<close> and \<^verbatim>\<open>mFlags\<close> and leaves
  \<^verbatim>\<open>mAscents\<close> and \<^verbatim>\<open>mDescents\<close> in the order of the backtrace, last line first. The
  paragraph "ab cd" on lines of width 25 breaks at 3 and 5; its first line has ascent 5
  and descent 1, its second line ascent 7 and descent 2, and the engine answers the
  ascents 7, 5 and the descents 2, 1.
\<close>
theorem optimal_ascents_not_reversed:
  "map_option (\<lambda>(n, s). (mBreaks s, mWidths s, mAscents s, mDescents s))
     (layoutOneRun
        (example_externals [boundaryAt 3, boundaryAt 5]
           (\<lambda>i. if i < 3 then \<lparr>ascent = 5, descent = 1, line_gap = 0\<rparr>
                 else \<lparr>ascent = 7, descent = 2, line_gap = 0\<rparr>))
        (example_engine [0x61, 0x62, 0x20, 0x63, 0x64] 25 kBreakStrategy_HighQuality)
        (Some example_paint) ())
     = Some ([3, 5], [20, 20], [7, 5], [2, 1])"
  by code_simp

subsection \<open>Tabs\<close>

text \<open>
  C8. A tab that is scanned before the greedy breaker commits a break in front of it is
  lost: \<^verbatim>\<open>pushBreak\<close> compares \<^verbatim>\<open>mFirstTabIndex\<close> with the offset of the break and then
  resets it, whether or not the tab lies before the break. In "ab \<open>\<langle>tab\<rangle>\<close>!cd" with
  boundaries at 3, 5 and 7 and lines of width 45 the breaks are 3 and 7, the tab is the
  code unit 3, the first of the second line, and neither line has the tab bit.
\<close>
theorem tab_after_committed_break_is_lost:
  "map_option (\<lambda>(n, s). (mBreaks s, mWidths s, mFlags s))
     (layoutOneRun
        (example_externals [boundaryAt 3, boundaryAt 5, boundaryAt 7] (\<lambda>i. zeroExtent))
        (example_engine [0x61, 0x62, 0x20, 0x09, 0x21, 0x63, 0x64] 45 kBreakStrategy_HighQuality)
        (Some example_paint) ())
     = Some ([3, 7], [20, 40], [0, 0]) \<and>
   [0x61, 0x62, 0x20, 0x09, 0x21, 0x63, 0x64 :: uint16] ! 3 = CHAR_TAB"
  by code_simp

subsection \<open>Line-end spaces\<close>

text \<open>
  C6. \<^verbatim>\<open>isLineEndSpace\<close> holds of exactly U+000A, U+0020, U+1680, U+2000 to U+200A
  without U+2007, U+205F and U+3000. For a code unit that is not a tab, the loop of
  \<^verbatim>\<open>addStyleRun\<close> adds its width to \<^verbatim>\<open>mWidth\<close>; when it is a line-end space, \<^verbatim>\<open>postBreak\<close>,
  \<^verbatim>\<open>postSpaceCount\<close> and \<^verbatim>\<open>afterWord\<close> stay as they are, and otherwise they become the new
  \<^verbatim>\<open>mWidth\<close>, the new \<^verbatim>\<open>mSpaceCount\<close> and \<open>i + 1\<close>.
\<close>
theorem isLineEndSpace_set_and_step:
  "(isLineEndSpace c \<longleftrightarrow>
      c \<in> {0x000A, 0x0020, 0x1680, 0x205F, 0x3000} \<union> ({0x2000..0x200A} - {0x2007})) \<and>
   (mTextBuf s ! i \<noteq> CHAR_TAB \<longrightarrow>
      mWidth (fst (charStep ext i (s, loc))) = mWidth s + mCharWidths s ! i \<and>
      (isLineEndSpace (mTextBuf s ! i) \<longrightarrow>
         postBreak_run (snd (charStep ext i (s, loc))) = postBreak_run loc \<and>
         postSpaceCount_run (snd (charStep ext i (s, loc))) = postSpaceCount_run loc \<and>
         afterWord (snd (charStep ext i (s, loc))) = afterWord loc) \<and>
      (\<not> isLineEndSpace (mTextBuf s ! i) \<longrightarrow>
         postBreak_run (snd (charStep ext i (s, loc))) = mWidth s + mCharWidths s ! i \<and>
         postSpaceCount_run (snd (charStep ext i (s, loc)))
           = mSpaceCount (fst (charStep ext i (s, loc))) \<and>
         afterWord (snd (charStep ext i (s, loc))) = i + 1))"
  by (auto simp: isLineEndSpace_def charStep_def Let_def)

theorem isLineEndSpace_set_and_step_witness:
  "isLineEndSpace 0x2006 \<and> \<not> isLineEndSpace 0x2007 \<and>
   mTextBuf example_space_letter ! 0 \<noteq> CHAR_TAB \<and>
   isLineEndSpace (mTextBuf example_space_letter ! 0) \<and>
   mWidth (fst (charStep (example_externals [] (\<lambda>i. zeroExtent)) 0
                  (example_space_letter, example_locals))) = 4 \<and>
   postBreak_run (snd (charStep (example_externals [] (\<lambda>i. zeroExtent)) 0
                         (example_space_letter, example_locals))) = 0 \<and>
   afterWord (snd (charStep (example_externals [] (\<lambda>i. zeroExtent)) 0
                     (example_space_letter, example_locals))) = 0 \<and>
   mTextBuf example_space_letter ! 1 \<noteq> CHAR_TAB \<and>
   \<not> isLineEndSpace (mTextBuf example_space_letter ! 1) \<and>
   postBreak_run (snd (charStep (example_externals [] (\<lambda>i. zeroExtent)) 1
                         (example_space_letter, example_locals))) = 10 \<and>
   afterWord (snd (charStep (example_externals [] (\<lambda>i. zeroExtent)) 1
                     (example_space_letter, example_locals))) = 2"
  using
    isLineEndSpace_set_and_step [of "0x2006" example_space_letter 0
      "example_externals [] (\<lambda>i. zeroExtent)" example_locals]
    isLineEndSpace_set_and_step [of "0x2007" example_space_letter 1
      "example_externals [] (\<lambda>i. zeroExtent)" example_locals]
  by (simp add: example_space_letter_def example_engine_def example_engine_in_def example_locals_def CHAR_TAB_def
        isLineEndSpace_def)

subsection \<open>The hyphenation buffer\<close>

lemma hyphenate_fold_step:
  "i < m \<Longrightarrow> fold f [i..<m] st = fold f [Suc i..<m] (f i st)"
  by (simp add: upt_conv_Cons)

lemma hyphenateLoop_from:
  "m = length str + 1 \<Longrightarrow> i \<le> length str \<Longrightarrow>
   snd (snd (fold (hyphenateBody h str (length str)) [i..<m] (False, ws, buf)))
     = buf @ hyphenateBySubWords h (drop i str) \<and>
   (ws \<le> i \<longrightarrow>
      snd (snd (fold (hyphenateBody h str (length str)) [i..<m] (True, ws, buf)))
        = buf @ classifySubWord h (take (i - ws) (drop ws str) @
                                   takeWhile (\<lambda>x. x \<noteq> CHAR_NBSP) (drop i str))
              @ hyphenateBySubWords h (dropWhile (\<lambda>x. x \<noteq> CHAR_NBSP) (drop i str)))"
proof (induction "length str - i" arbitrary: i ws buf)
  case 0
  then have i: "i = length str" by simp
  have last: "[length str..<m] = [length str]"
    using 0 by (simp add: upt_conv_Cons)
  show ?case
    unfolding i last
    by (simp add: hyphenateBody_def classifySubWord_def Let_def)
next
  case (Suc k)
  then have lt: "i < length str" and k: "k = length str - Suc i" and le: "Suc i \<le> length str"
    and m: "m = length str + 1"
    by simp_all
  note IH = Suc.hyps(1) [OF k m le]
  have dr: "drop i str = str ! i # drop (Suc i) str"
    using lt by (simp add: Cons_nth_drop_Suc)
  have step: "\<And>st. fold (hyphenateBody h str (length str)) [i..<m] st
                  = fold (hyphenateBody h str (length str)) [Suc i..<m]
                      (hyphenateBody h str (length str) i st)"
    using lt m by (intro hyphenate_fold_step) simp
  show ?case
  proof (cases "str ! i = CHAR_NBSP")
    case True
    have b1: "hyphenateBody h str (length str) i (False, ws, buf) = (False, ws, buf @ [DONT_BREAK])"
      using True lt by (simp add: hyphenateBody_def Let_def)
    have b2: "ws \<le> i \<Longrightarrow> hyphenateBody h str (length str) i (True, ws, buf)
               = (False, ws, buf @ classifySubWord h (take (i - ws) (drop ws str)) @ [DONT_BREAK])"
      using True lt
      by (auto simp: hyphenateBody_def Let_def classifySubWord_def min_def)
    show ?thesis
      using IH [THEN conjunct1] True
      by (simp add: step b1 b2 dr)
  next
    case False
    have b1: "hyphenateBody h str (length str) i (False, ws, buf) = (True, i, buf)"
      using False lt by (simp add: hyphenateBody_def)
    have b2: "hyphenateBody h str (length str) i (True, ws, buf) = (True, ws, buf)"
      using False lt by (simp add: hyphenateBody_def)
    have t1: "take (Suc i - i) (drop i str) = [str ! i]"
      by (simp add: dr)
    have t2: "ws \<le> i \<Longrightarrow> take (Suc i - ws) (drop ws str) = take (i - ws) (drop ws str) @ [str ! i]"
    proof -
      assume w: "ws \<le> i"
      then have "Suc i - ws = Suc (i - ws)" by simp
      moreover have "i - ws < length (drop ws str)" using lt w by simp
      moreover have "drop ws str ! (i - ws) = str ! i" using lt w by simp
      ultimately show ?thesis by (simp add: take_Suc_conv_app_nth)
    qed
    have A: "snd (snd (fold (hyphenateBody h str (length str)) [i..<m] (False, ws, buf)))
               = buf @ hyphenateBySubWords h (drop i str)"
      using IH [of i buf, THEN conjunct2] False
      by (simp add: step b1 t1 dr)
    have B: "ws \<le> i \<Longrightarrow>
             snd (snd (fold (hyphenateBody h str (length str)) [i..<m] (True, ws, buf)))
               = buf @ classifySubWord h (take (i - ws) (drop ws str) @
                                          takeWhile (\<lambda>x. x \<noteq> CHAR_NBSP) (drop i str))
                     @ hyphenateBySubWords h (dropWhile (\<lambda>x. x \<noteq> CHAR_NBSP) (drop i str))"
      using IH [of ws buf, THEN conjunct2] False
      by (simp add: step b2 t2 dr)
    from A B show ?thesis by blast
  qed
qed

lemma hyphenateBySubWords_length:
  "(\<And>w. length (h w) = length w) \<Longrightarrow> length (hyphenateBySubWords h str) = length str"
proof (induction h str rule: hyphenateBySubWords.induct)
  case (1 h)
  show ?case by simp
next
  case (2 h c cs)
  have "length (takeWhile (\<lambda>x. x \<noteq> CHAR_NBSP) cs) + length (dropWhile (\<lambda>x. x \<noteq> CHAR_NBSP) cs)
          = length cs"
    by (metis length_append takeWhile_dropWhile_id)
  with 2 show ?case by (auto simp: classifySubWord_def)
qed

text \<open>
  C7. For a range of \<open>len\<close> code units \<^verbatim>\<open>hyphenate\<close> leaves in \<^verbatim>\<open>mHyphBuf\<close> the entries of
  its sub-words in source order: a maximal run without U+00A0 is classified by the
  hyphenator when it has at most 45 code units and is all \<open>DONT_BREAK\<close> when it is
  longer, and each U+00A0 is one \<open>DONT_BREAK\<close>. When the hyphenator answers one entry for
  each code unit it is given, the buffer has exactly \<open>len\<close> entries.
\<close>
theorem hyphenate_by_sub_words:
  "mHyphBuf (hyphenate s str) = hyphenateBySubWords (the (mHyphenator s) (mLocale s)) str \<and>
   ((\<forall>w. length (the (mHyphenator s) (mLocale s) w) = length w) \<longrightarrow>
      length (mHyphBuf (hyphenate s str)) = length str)"
proof -
  have "hyphenateLoop h str = hyphenateBySubWords h str" for h
    using hyphenateLoop_from [of "length str + 1" str 0 h 0 "[]", THEN conjunct1]
    by (simp add: hyphenateLoop_def)
  then show ?thesis
    by (simp add: hyphenate_def hyphenateBySubWords_length)
qed

theorem hyphenate_by_sub_words_witness:
  "(\<forall>w. length (example_hyphenator () w) = length w) \<and>
   mHyphBuf (hyphenate
       ((example_engine [] 50 kBreakStrategy_Greedy)\<lparr>mHyphenator := Some example_hyphenator\<rparr>)
       [0x61, 0x62, 0x63, 0x64, 0xA0, 0x65, 0x66, 0x67])
     = [DONT_BREAK, DONT_BREAK, BREAK_AND_INSERT_HYPHEN, DONT_BREAK, DONT_BREAK,
        DONT_BREAK, DONT_BREAK, BREAK_AND_INSERT_HYPHEN] \<and>
   length (mHyphBuf (hyphenate
       ((example_engine [] 50 kBreakStrategy_Greedy)\<lparr>mHyphenator := Some example_hyphenator\<rparr>)
       [0x61, 0x62, 0x63, 0x64, 0xA0, 0x65, 0x66, 0x67])) = 8"
  using hyphenate_by_sub_words
    [of "(example_engine [] 50 kBreakStrategy_Greedy)\<lparr>mHyphenator := Some example_hyphenator\<rparr>"
        "[0x61, 0x62, 0x63, 0x64, 0xA0, 0x65, 0x66, 0x67]"]
  by (simp add: example_engine_def example_engine_in_def example_hyphenator_def classifySubWord_def
        LONGEST_HYPHENATED_WORD_def CHAR_NBSP_def upt_conv_Cons)

subsection \<open>setLocales\<close>

lemma splitCommas_no_comma: "CHR '','' \<notin> set str \<Longrightarrow> splitCommas str = [str]"
  by (subst splitCommas.simps) simp

lemma splitCommas_comma:
  "CHR '','' \<in> set str \<Longrightarrow>
   splitCommas str = takeWhile (\<lambda>c. c \<noteq> CHR '','') str #
                     splitCommas (tl (dropWhile (\<lambda>c. c \<noteq> CHR '','') str))"
  by (subst splitCommas.simps) simp

lemma splitCommas_nonempty: "splitCommas str \<noteq> []"
  by (cases "CHR '','' \<in> set str") (simp_all add: splitCommas_comma splitCommas_no_comma)

lemma setLocalesLoop_firstValid:
  "length (splitCommas ls) = Suc k \<Longrightarrow> i + k < length hs \<Longrightarrow>
   \<exists>good ls' s1.
     setLocalesLoop ext hs k i ls s = Some (good, ls', s1) \<and>
     (if good
      then (mLocale s1, mHyphenator s1) = firstValid ext (zip (splitCommas ls) (drop i hs))
      else firstValid ext (zip (splitCommas ls) (drop i hs)) = firstValid ext [(ls', hs ! (i + k))])"
proof (induction k arbitrary: i ls s)
  case 0
  have nocomma: "CHR '','' \<notin> set ls"
  proof
    assume "CHR '','' \<in> set ls"
    then have "length (splitCommas ls)
                 = Suc (length (splitCommas (tl (dropWhile (\<lambda>c. c \<noteq> CHR '','') ls))))"
      by (simp add: splitCommas_comma)
    with 0 splitCommas_nonempty [of "tl (dropWhile (\<lambda>c. c \<noteq> CHR '','') ls)"]
    show False by simp
  qed
  then have sp: "splitCommas ls = [ls]" by (rule splitCommas_no_comma)
  have dr: "drop i hs = hs ! i # drop (Suc i) hs"
    using 0 by (simp add: Cons_nth_drop_Suc)
  show ?case
    by (rule exI [of _ False], rule exI [of _ ls], rule exI [of _ s]) (simp add: sp dr)
next
  case (Suc k)
  let ?rest = "tl (dropWhile (\<lambda>c. c \<noteq> CHR '','') ls)"
  let ?n0 = "takeWhile (\<lambda>c. c \<noteq> CHR '','') ls"
  let ?s1 = "s\<lparr>mLocale := createFromName ext ?n0\<rparr>"
  have comma: "CHR '','' \<in> set ls"
  proof (rule ccontr)
    assume "CHR '','' \<notin> set ls"
    then have "splitCommas ls = [ls]" by (rule splitCommas_no_comma)
    with Suc.prems show False by simp
  qed
  then have sp: "splitCommas ls = ?n0 # splitCommas ?rest"
    by (rule splitCommas_comma)
  with Suc.prems have len: "length (splitCommas ?rest) = Suc k" by simp
  have dr: "drop i hs = hs ! i # drop (Suc i) hs"
    using Suc.prems by (simp add: Cons_nth_drop_Suc)
  show ?case
  proof (cases "isBogus ext (createFromName ext ?n0)")
    case False
    have "setLocalesLoop ext hs (Suc k) i ls s = Some (True, ls, ?s1\<lparr>mHyphenator := hs ! i\<rparr>)"
      using False comma by (simp add: Let_def)
    moreover have "firstValid ext (zip (splitCommas ls) (drop i hs))
                     = (createFromName ext ?n0, hs ! i)"
      using False by (simp add: sp dr)
    ultimately show ?thesis
      by (intro exI [of _ True] exI [of _ ls] exI [of _ "?s1\<lparr>mHyphenator := hs ! i\<rparr>"]) simp
  next
    case True
    from Suc.prems have "Suc i + k < length hs" by simp
    from Suc.IH [OF len this, of ?s1]
    obtain good ls' s2 where
      rec: "setLocalesLoop ext hs k (Suc i) ?rest ?s1 = Some (good, ls', s2)" and
      sel: "if good
            then (mLocale s2, mHyphenator s2)
                   = firstValid ext (zip (splitCommas ?rest) (drop (Suc i) hs))
            else firstValid ext (zip (splitCommas ?rest) (drop (Suc i) hs))
                   = firstValid ext [(ls', hs ! (Suc i + k))]"
      by (elim exE conjE)
    have "setLocalesLoop ext hs (Suc k) i ls s = Some (good, ls', s2)"
      using True comma rec by (simp add: Let_def)
    moreover have "firstValid ext (zip (splitCommas ls) (drop i hs))
                     = firstValid ext (zip (splitCommas ?rest) (drop (Suc i) hs))"
      using True by (simp add: sp dr)
    ultimately show ?thesis
      using sel by (intro exI [of _ good] exI [of _ ls'] exI [of _ s2]) simp
  qed
qed

text \<open>
  C9. When there is one hyphenator for each locale of the list, \<^verbatim>\<open>setLocales\<close> takes the
  first locale that is not bogus and the hyphenator at its position, and the root locale
  with no hyphenator when none is valid. With no hyphenators the whole string is one
  locale name and the engine gets no hyphenator, whether the locale is valid or not. In
  every case the word segmenter gets the locale that was chosen.
\<close>
theorem setLocales_first_valid:
  "(length hyphenators = length (splitCommas locales) \<longrightarrow>
      map_option (\<lambda>s'. (mLocale s', mHyphenator s', wbLocale (mWordBreaker s')))
        (setLocales ext s locales hyphenators)
      = Some (fst (firstValid ext (zip (splitCommas locales) hyphenators)),
              snd (firstValid ext (zip (splitCommas locales) hyphenators)),
              fst (firstValid ext (zip (splitCommas locales) hyphenators)))) \<and>
   (hyphenators = [] \<longrightarrow>
      map_option (\<lambda>s'. (mLocale s', mHyphenator s', wbLocale (mWordBreaker s')))
        (setLocales ext s locales hyphenators)
      = (if isBogus ext (createFromName ext locales)
         then Some (getRoot ext, None, getRoot ext)
         else Some (createFromName ext locales, None, createFromName ext locales)))"
proof (intro conjI impI)
  assume len: "length hyphenators = length (splitCommas locales)"
  from len splitCommas_nonempty [of locales] obtain k where k: "length (splitCommas locales) = Suc k" "length hyphenators = Suc k"
    by (cases "splitCommas locales") auto
  then have "0 + k < length hyphenators" by simp
  from setLocalesLoop_firstValid [OF k(1) this, where ext = ext and s = s]
  obtain good ls' s1 where
    loop: "setLocalesLoop ext hyphenators k 0 locales s = Some (good, ls', s1)" and
    sel0: "if good
          then (mLocale s1, mHyphenator s1)
                 = firstValid ext (zip (splitCommas locales) (drop 0 hyphenators))
          else firstValid ext (zip (splitCommas locales) (drop 0 hyphenators))
                 = firstValid ext [(ls', hyphenators ! (0 + k))]"
    by (elim exE conjE)
  from sel0 have
    sel: "if good
          then (mLocale s1, mHyphenator s1) = firstValid ext (zip (splitCommas locales) hyphenators)
          else firstValid ext (zip (splitCommas locales) hyphenators)
                 = firstValid ext [(ls', hyphenators ! k)]"
    by (cases good) simp_all
  show "map_option (\<lambda>s'. (mLocale s', mHyphenator s', wbLocale (mWordBreaker s')))
          (setLocales ext s locales hyphenators)
        = Some (fst (firstValid ext (zip (splitCommas locales) hyphenators)),
                snd (firstValid ext (zip (splitCommas locales) hyphenators)),
                fst (firstValid ext (zip (splitCommas locales) hyphenators)))"
  proof (cases good)
    case True
    with sel have "firstValid ext (zip (splitCommas locales) hyphenators)
                     = (mLocale s1, mHyphenator s1)" by simp
    then show ?thesis using loop True k(2) by (simp add: setLocales_def Let_def)
  next
    case False
    with sel have "firstValid ext (zip (splitCommas locales) hyphenators)
                     = firstValid ext [(ls', hyphenators ! k)]" by simp
    then show ?thesis using loop False k(2) by (simp add: setLocales_def Let_def)
  qed
next
  assume "hyphenators = []"
  then show "map_option (\<lambda>s'. (mLocale s', mHyphenator s', wbLocale (mWordBreaker s')))
               (setLocales ext s locales hyphenators)
             = (if isBogus ext (createFromName ext locales)
                then Some (getRoot ext, None, getRoot ext)
                else Some (createFromName ext locales, None, createFromName ext locales))"
    by (simp add: setLocales_def Let_def)
qed

theorem setLocales_first_valid_witness:
  "length [Some hyphenator_A, Some hyphenator_B] = length (splitCommas ''xx,fr'') \<and>
   map_option (\<lambda>s'. (mLocale s', mHyphenator s', wbLocale (mWordBreaker s')))
     (setLocales locale_externals (example_engine_in ''und'' [] 50 kBreakStrategy_Greedy)
        ''xx,fr'' [Some hyphenator_A, Some hyphenator_B])
     = Some (''fr'', Some hyphenator_B, ''fr'') \<and>
   map_option (\<lambda>s'. (mLocale s', mHyphenator s', wbLocale (mWordBreaker s')))
     (setLocales locale_externals (example_engine_in ''und'' [] 50 kBreakStrategy_Greedy)
        ''fr'' [])
     = Some (''fr'', None, ''fr'')"
proof -
  have split: "splitCommas ''xx,fr'' = [''xx'', ''fr'']"
    by (simp add: splitCommas_comma splitCommas_no_comma)
  have sel: "firstValid locale_externals
               (zip (splitCommas ''xx,fr'') [Some hyphenator_A, Some hyphenator_B])
             = (''fr'', Some hyphenator_B)"
    by (simp add: split locale_externals_def)
  have valid: "\<not> isBogus locale_externals (createFromName locale_externals ''fr'')"
    by (simp add: locale_externals_def)
  have len: "length [Some hyphenator_A, Some hyphenator_B] = length (splitCommas ''xx,fr'')"
    by (simp add: split)
  from setLocales_first_valid
         [of "[Some hyphenator_A, Some hyphenator_B]" "''xx,fr''" locale_externals
             "example_engine_in ''und'' [] 50 kBreakStrategy_Greedy", THEN conjunct1, rule_format, OF len]
  have A: "map_option (\<lambda>s'. (mLocale s', mHyphenator s', wbLocale (mWordBreaker s')))
             (setLocales locale_externals (example_engine_in ''und'' [] 50 kBreakStrategy_Greedy)
                ''xx,fr'' [Some hyphenator_A, Some hyphenator_B])
           = Some (''fr'', Some hyphenator_B, ''fr'')"
    unfolding sel by simp
  from setLocales_first_valid
         [of "[]" "''fr''" locale_externals
             "example_engine_in ''und'' [] 50 kBreakStrategy_Greedy", THEN conjunct2, rule_format, OF refl]
  have B: "map_option (\<lambda>s'. (mLocale s', mHyphenator s', wbLocale (mWordBreaker s')))
             (setLocales locale_externals (example_engine_in ''und'' [] 50 kBreakStrategy_Greedy)
                ''fr'' [])
           = Some (''fr'', None, ''fr'')"
    using valid by (simp add: locale_externals_def)
  from len A B show ?thesis by blast
qed

subsection \<open>The greedy breaker\<close>















subsection \<open>Desperate breaks\<close>

lemma pushGreedyBreak_keeps:
  "mCandidates (pushGreedyBreak ext s) = mCandidates s"
  "mCharWidths (pushGreedyBreak ext s) = mCharWidths s"
  "mCharExtents (pushGreedyBreak ext s) = mCharExtents s"
  by (simp_all add: pushGreedyBreak_def pushBreak_def Let_def)

lemma rescan_keeps_arrays:
  "mCharWidths (rescan s a b) = mCharWidths s"
  "mCharExtents (rescan s a b) = mCharExtents s"
  unfolding rescan_def by (induction b) simp_all

lemma breakHereIfNoneFound_keeps:
  "mCandidates (breakHereIfNoneFound s i) = mCandidates s"
  "mCharWidths (breakHereIfNoneFound s i) = mCharWidths s"
  "mCharExtents (breakHereIfNoneFound s i) = mCharExtents s"
  by (simp_all add: breakHereIfNoneFound_def)

lemma addCandidate_while_keeps:
  "mCandidates (addCandidate_while ext cand candIndex s) = mCandidates s \<and>
   mCharWidths (addCandidate_while ext cand candIndex s) = mCharWidths s \<and>
   mCharExtents (addCandidate_while ext cand candIndex s) = mCharExtents s"
proof (induction ext cand candIndex s rule: addCandidate_while.induct)
  case (1 ext cand candIndex s)
  show ?case
  proof (cases "mLastBreak s \<noteq> candIndex \<and> overflows s cand")
    case False
    then have "addCandidate_while ext cand candIndex s = s"
      by (subst addCandidate_while.simps) auto
    then show ?thesis by simp
  next
    case True
    then have "addCandidate_while ext cand candIndex s
                 = addCandidate_while ext cand candIndex
                     (pushGreedyBreak ext
                        (breakHereIfNoneFound (rescan s (mLastBreak s + 1) candIndex) candIndex))"
      by (subst addCandidate_while.simps) simp
    with True "1.IH" show ?thesis
      by (simp add: pushGreedyBreak_keeps breakHereIfNoneFound_keeps rescan_keeps
            rescan_keeps_arrays)
  qed
qed

lemma addCandidate_keeps:
  "mCandidates (addCandidate ext s cand) = mCandidates s @ [cand]"
  "mCharWidths (addCandidate ext s cand) = mCharWidths s"
  "mCharExtents (addCandidate ext s cand) = mCharExtents s"
  by (simp_all add: addCandidate_def Let_def addCandidate_while_keeps pushGreedyBreak_keeps
        breakHereIfNoneFound_keeps)

text \<open>The positive widths of the positions from \<open>a\<close> up to \<open>i\<close>.\<close>
lemma desperateLoop_result:
  "desperateLoop ext psc a b (s, w) = (s', w') \<Longrightarrow>
   mCharWidths s' = mCharWidths s \<and> mCharExtents s' = mCharExtents s \<and>
   w' = w + sum_list (map (\<lambda>k. mCharWidths s ! k) (filter (\<lambda>k. mCharWidths s ! k > 0) [a..<b])) \<and>
   mCandidates s' = mCandidates s @
     map (\<lambda>i. desperateCandidate s i
                 (w + sum_list (map (\<lambda>k. mCharWidths s ! k)
                                  (filter (\<lambda>k. mCharWidths s ! k > 0) [a..<i]))) psc)
         (filter (\<lambda>i. mCharWidths s ! i > 0) [a..<b])"
proof (induction b arbitrary: s' w')
  case 0
  then show ?case by (simp add: desperateLoop_def)
next
  case (Suc b)
  show ?case
  proof (cases "a \<le> b")
    case False
    with Suc.prems show ?thesis by (simp add: desperateLoop_def)
  next
    case True
    obtain s1 w1 where mid: "desperateLoop ext psc a b (s, w) = (s1, w1)"
      by (cases "desperateLoop ext psc a b (s, w)")
    note IH = Suc.IH [OF mid]
    from True have split: "[a..<Suc b] = [a..<b] @ [b]" by simp
    have step: "(s', w') =
                  (if mCharWidths s1 ! b > 0
                   then (addCandidate ext s1 (desperateCandidate s1 b w1 psc), w1 + mCharWidths s1 ! b)
                   else (s1, w1))"
      using Suc.prems mid unfolding desperateLoop_def split
      by (simp add: Let_def)
    have dc: "\<And>x. desperateCandidate s1 b x psc = desperateCandidate s b x psc"
      using IH by (simp add: desperateCandidate_def)
    show ?thesis
    proof (cases "mCharWidths s ! b > 0")
      case pos: True
      with step IH have "s' = addCandidate ext s1 (desperateCandidate s b w1 psc)"
        and "w' = w1 + mCharWidths s ! b"
        by (simp_all add: dc)
      with IH pos show ?thesis
        unfolding split by (simp add: addCandidate_keeps)
    next
      case False
      with step IH have "s' = s1" "w' = w1" by simp_all
      with IH False show ?thesis
        unfolding split by simp
    qed
  qed
qed

text \<open>
  C5. \<^verbatim>\<open>addWordBreak\<close> leaves the earlier candidates as they are and appends the prepared
  candidate last. When its \<^verbatim>\<open>postBreak\<close> minus the \<^verbatim>\<open>preBreak\<close> of the last candidate
  exceeds the current line width, it puts in front of it one desperate candidate for each
  position \<open>i\<close> after the last candidate's offset and before the new offset that has a
  positive width: \<^verbatim>\<open>preBreak\<close> and \<^verbatim>\<open>postBreak\<close> are both the running width at \<open>i\<close>, which
  contains the width of the code unit at the last candidate's offset whatever it is, both
  space counts are the given \<^verbatim>\<open>postSpaceCount\<close>, the penalty is \<^verbatim>\<open>SCORE_DESPERATE\<close> and the
  hyphen type \<^verbatim>\<open>BREAK_AND_DONT_INSERT_HYPHEN\<close>. Otherwise it adds the prepared candidate only.
\<close>
theorem addWordBreak_desperate_candidates:
  "take (length (mCandidates s))
     (mCandidates (addWordBreak ext s off pre post psc posc e pen hy)) = mCandidates s \<and>
   map assignedFields
     (drop (length (mCandidates s))
        (mCandidates (addWordBreak ext s off pre post psc posc e pen hy)))
   = (if post - preBreak (last (mCandidates s)) > currentLineWidth s
      then map (\<lambda>i. (i, runningWidth s i, runningWidth s i, SCORE_DESPERATE, posc, posc,
                      mCharExtents s ! i, BREAK_AND_DONT_INSERT_HYPHEN))
             (filter (\<lambda>i. mCharWidths s ! i > 0) [offset (last (mCandidates s)) + 1..<off])
      else [])
     @ [(off, pre, post, pen, psc, posc, e, hy)]"
proof (cases "post - preBreak (last (mCandidates s)) > currentLineWidth s")
  case False
  then show ?thesis
    by (simp add: addWordBreak_def Let_def addCandidate_keeps assignedFields_def)
next
  case True
  let ?o = "offset (last (mCandidates s))"
  let ?w0 = "preBreak (last (mCandidates s)) + mCharWidths s ! ?o"
  obtain s1 w1 where loop: "desperateLoop ext posc (?o + 1) off (s, ?w0) = (s1, w1)"
    by (cases "desperateLoop ext posc (?o + 1) off (s, ?w0)")
  from desperateLoop_result [OF loop]
  have cands: "mCandidates s1 = mCandidates s @
     map (\<lambda>i. desperateCandidate s i
                 (?w0 + sum_list (map (\<lambda>k. mCharWidths s ! k)
                                    (filter (\<lambda>k. mCharWidths s ! k > 0) [?o + 1..<i]))) posc)
         (filter (\<lambda>i. mCharWidths s ! i > 0) [?o + 1..<off])"
    by simp
  have res: "mCandidates (addWordBreak ext s off pre post psc posc e pen hy)
               = mCandidates s1 @
                 [\<lparr>offset = off, prev = 0, preBreak = pre, postBreak = post, penalty = pen,
                   score = 0, preSpaceCount = psc, postSpaceCount = posc, extent = e,
                   hyphenType = hy\<rparr>]"
    using True loop by (simp add: addWordBreak_def Let_def addCandidate_keeps)
  show ?thesis
    using True
    by (simp add: res cands assignedFields_def desperateCandidate_def runningWidth_def
          comp_def)
qed

theorem addWordBreak_desperate_candidates_witness:
  "40 - preBreak (last (mCandidates example_word_state)) > currentLineWidth example_word_state \<and>
   map assignedFields
     (drop (length (mCandidates example_word_state))
        (mCandidates (addWordBreak (example_externals [boundaryAt 4] (\<lambda>i. zeroExtent))
                        example_word_state 4 40 40 0 0 zeroExtent 0 DONT_BREAK)))
   = [(1, 10, 10, SCORE_DESPERATE, 0, 0, zeroExtent, BREAK_AND_DONT_INSERT_HYPHEN),
      (3, 20, 20, SCORE_DESPERATE, 0, 0, zeroExtent, BREAK_AND_DONT_INSERT_HYPHEN),
      (4, 40, 40, 0, 0, 0, zeroExtent, DONT_BREAK)]"
proof -
  have over: "40 - preBreak (last (mCandidates example_word_state))
                > currentLineWidth example_word_state"
    by code_simp
  have rhs: "map (\<lambda>i. (i, runningWidth example_word_state i, runningWidth example_word_state i,
                        SCORE_DESPERATE, 0 :: nat, 0 :: nat,
                        mCharExtents example_word_state ! i, BREAK_AND_DONT_INSERT_HYPHEN))
               (filter (\<lambda>i. mCharWidths example_word_state ! i > 0)
                  [offset (last (mCandidates example_word_state)) + 1..<4])
             = [(1, 10, 10, SCORE_DESPERATE, 0, 0, zeroExtent, BREAK_AND_DONT_INSERT_HYPHEN),
                (3, 20, 20, SCORE_DESPERATE, 0, 0, zeroExtent, BREAK_AND_DONT_INSERT_HYPHEN)]"
    by code_simp
  from addWordBreak_desperate_candidates
         [of example_word_state "example_externals [boundaryAt 4] (\<lambda>i. zeroExtent)"
             4 40 40 0 0 zeroExtent 0 DONT_BREAK, THEN conjunct2]
       over rhs
  show ?thesis by simp
qed

subsection \<open>The pruning of the optimal breaker\<close>













lemma fold_from_one_Suc:
  "Suc 0 \<le> m \<Longrightarrow> fold f [Suc 0..<Suc m] x = f m (fold f [Suc 0..<m] x)"
  by simp









subsection \<open>Further properties\<close>

text \<open>
  The tab branch of the loop of \<^verbatim>\<open>addStyleRun\<close>: the running width moves to the next tab
  stop counted from \<^verbatim>\<open>mPreBreak\<close>, the index of the tab is recorded when none is pending,
  the strategy becomes Greedy, and the locals of the loop stay as they are. \<^verbatim>\<open>pushBreak\<close>
  sets the tab bit when the recorded index is below the offset it pushes, and forgets the
  index.
\<close>
theorem tab_step_and_flag:
  "(mTextBuf s ! i = CHAR_TAB \<longrightarrow>
      mWidth (fst (charStep ext i (s, loc))) = mPreBreak s + mTabStops s (mWidth s - mPreBreak s) \<and>
      mFirstTabIndex (fst (charStep ext i (s, loc)))
        = (if mFirstTabIndex s = INT_MAX then int i else mFirstTabIndex s) \<and>
      mStrategy (fst (charStep ext i (s, loc))) = kBreakStrategy_Greedy \<and>
      snd (charStep ext i (s, loc)) = loc) \<and>
   mFlags (pushBreak ext s off w e hy)
     = mFlags s @ [(if mFirstTabIndex s < off then push_bit (kTab_Shift ext) 1 else 0) OR ucast hy] \<and>
   mFirstTabIndex (pushBreak ext s off w e hy) = INT_MAX"
  by (simp add: charStep_def pushBreak_def Let_def)

theorem tab_step_and_flag_witness:
  "mTextBuf (example_engine [0x61, 0x09] 50 kBreakStrategy_HighQuality) ! 1 = CHAR_TAB \<and>
   mWidth (fst (charStep (example_externals [] (\<lambda>i. zeroExtent)) 1
                  ((example_engine [0x61, 0x09] 50 kBreakStrategy_HighQuality)
                     \<lparr>mWidth := 10, mFirstTabIndex := INT_MAX\<rparr>, example_locals))) = 40 \<and>
   mFirstTabIndex (fst (charStep (example_externals [] (\<lambda>i. zeroExtent)) 1
                  ((example_engine [0x61, 0x09] 50 kBreakStrategy_HighQuality)
                     \<lparr>mWidth := 10, mFirstTabIndex := INT_MAX\<rparr>, example_locals))) = 1 \<and>
   mStrategy (fst (charStep (example_externals [] (\<lambda>i. zeroExtent)) 1
                  ((example_engine [0x61, 0x09] 50 kBreakStrategy_HighQuality)
                     \<lparr>mWidth := 10, mFirstTabIndex := INT_MAX\<rparr>, example_locals)))
     = kBreakStrategy_Greedy"
  using tab_step_and_flag
    [of "(example_engine [0x61, 0x09] 50 kBreakStrategy_HighQuality)
           \<lparr>mWidth := 10, mFirstTabIndex := INT_MAX\<rparr>" 1
        "example_externals [] (\<lambda>i. zeroExtent)" example_locals]
  by (simp add: example_engine_def example_engine_in_def CHAR_TAB_def INT_MAX_def)

text \<open>
  A paragraph for which \<^verbatim>\<open>addStyleRun\<close> is never called, as \<^verbatim>\<open>setText\<close> leaves it: the
  greedy strategy answers one break at offset 0 with width 0, and the other strategies
  answer no break.
\<close>
theorem computeBreaks_after_setText:
  "(mStrategy s = kBreakStrategy_Greedy \<longrightarrow>
      map_option (\<lambda>(n, s'). (n, mBreaks s', mWidths s')) (computeBreaks ext (setText ext s))
        = Some (1, [0], [0])) \<and>
   (mStrategy s \<noteq> kBreakStrategy_Greedy \<longrightarrow>
      map_option (\<lambda>(n, s'). (n, mBreaks s', mWidths s')) (computeBreaks ext (setText ext s))
        = Some (0, [], []))"
  by (simp add: computeBreaks_def computeBreaksGreedy_def computeBreaksOptimal_def
        finishBreaksOptimal_def optimalPass_def setText_def pushBreak_def Let_def
        backtrace.simps)

theorem computeBreaks_after_setText_witness:
  "mStrategy (example_engine [] 50 kBreakStrategy_Greedy) = kBreakStrategy_Greedy \<and>
   map_option (\<lambda>(n, s'). (n, mBreaks s', mWidths s'))
     (computeBreaks (example_externals [] (\<lambda>i. zeroExtent))
        (setText (example_externals [] (\<lambda>i. zeroExtent))
           (example_engine [] 50 kBreakStrategy_Greedy)))
     = Some (1, [0], [0]) \<and>
   mStrategy (example_engine [] 50 kBreakStrategy_Balanced) \<noteq> kBreakStrategy_Greedy \<and>
   map_option (\<lambda>(n, s'). (n, mBreaks s', mWidths s'))
     (computeBreaks (example_externals [] (\<lambda>i. zeroExtent))
        (setText (example_externals [] (\<lambda>i. zeroExtent))
           (example_engine [] 50 kBreakStrategy_Balanced)))
     = Some (0, [], [])"
  using
    computeBreaks_after_setText [of "example_engine [] 50 kBreakStrategy_Greedy"
      "example_externals [] (\<lambda>i. zeroExtent)"]
    computeBreaks_after_setText [of "example_engine [] 50 kBreakStrategy_Balanced"
      "example_externals [] (\<lambda>i. zeroExtent)"]
  by (simp add: example_engine_def example_engine_in_def)

lemma innerBody_bestPrev:
  "bestPrev (innerBody s cands lns maxShrink atEnd i j st) = bestPrev st \<or>
   bestPrev (innerBody s cands lns maxShrink atEnd i j st) = j"
  by (simp add: innerBody_def Let_def split: prod.splits)

lemma inner_loop_bestPrev:
  "bestPrev (fold (innerBody s cands lns maxShrink atEnd i) [a..<k] st) = bestPrev st \<or>
   bestPrev (fold (innerBody s cands lns maxShrink atEnd i) [a..<k] st) < k"
proof (induction k)
  case 0
  show ?case by simp
next
  case (Suc k)
  show ?case
  proof (cases "a \<le> k")
    case False
    then show ?thesis by simp
  next
    case True
    let ?st = "fold (innerBody s cands lns maxShrink atEnd i) [a..<k] st"
    from True have "fold (innerBody s cands lns maxShrink atEnd i) [a..<Suc k] st
                      = innerBody s cands lns maxShrink atEnd i k ?st"
      by simp
    with innerBody_bestPrev [of s cands lns maxShrink atEnd i k ?st] Suc
    show ?thesis by auto
  qed
qed

lemma outerBody_result:
  "fst (outerBody s maxShrink n i (pc, pl, a)) =
     pc[i := (pc ! i)
          \<lparr>score := best (fold (innerBody s pc pl maxShrink (i = n - 1) i) [a..<i]
                             \<lparr>active = a, best = SCORE_INFTY, bestPrev = 0,
                              width = the (mLineWidthDelegate s) (pl ! a),
                              leftEdge = postBreak (pc ! i) - the (mLineWidthDelegate s) (pl ! a),
                              bestHope = 0, lineNumberLast = pl ! a\<rparr>)
                    + penalty (pc ! i) + mLinePenalty s,
           prev := bestPrev (fold (innerBody s pc pl maxShrink (i = n - 1) i) [a..<i]
                             \<lparr>active = a, best = SCORE_INFTY, bestPrev = 0,
                              width = the (mLineWidthDelegate s) (pl ! a),
                              leftEdge = postBreak (pc ! i) - the (mLineWidthDelegate s) (pl ! a),
                              bestHope = 0, lineNumberLast = pl ! a\<rparr>)\<rparr>]"
  by (simp add: outerBody_def Let_def)

lemma optimal_fold_links:
  "length (fst (fold (outerBody s maxShrink n) [Suc 0..<m] (c, [0], 0))) = length c \<and>
   (\<forall>k. Suc 0 \<le> k \<and> k < m \<and> k < length c \<longrightarrow>
        prev (fst (fold (outerBody s maxShrink n) [Suc 0..<m] (c, [0], 0)) ! k) < k)"
proof (induction m)
  case 0
  show ?case by simp
next
  case (Suc m)
  show ?case
  proof (cases "Suc 0 \<le> m")
    case False
    then show ?thesis by simp
  next
    case True
    obtain pc pl a where p: "fold (outerBody s maxShrink n) [Suc 0..<m] (c, [0], 0) = (pc, pl, a)"
      by (cases "fold (outerBody s maxShrink n) [Suc 0..<m] (c, [0], 0)") auto
    let ?init = "\<lparr>active = a, best = SCORE_INFTY, bestPrev = 0,
                  width = the (mLineWidthDelegate s) (pl ! a),
                  leftEdge = postBreak (pc ! m) - the (mLineWidthDelegate s) (pl ! a),
                  bestHope = 0, lineNumberLast = pl ! a\<rparr>"
    let ?bp = "bestPrev (fold (innerBody s pc pl maxShrink (m = n - 1) m) [a..<m] ?init)"
    from Suc p have len: "length pc = length c"
      and links: "\<And>k. Suc 0 \<le> k \<Longrightarrow> k < m \<Longrightarrow> k < length c \<Longrightarrow> prev (pc ! k) < k"
      by simp_all
    have bp: "?bp < m"
      using inner_loop_bestPrev [of s pc pl maxShrink "m = n - 1" m a m ?init] True by auto
    have step: "fst (fold (outerBody s maxShrink n) [Suc 0..<Suc m] (c, [0], 0))
                  = fst (outerBody s maxShrink n m (pc, pl, a))"
      using True by (simp add: p)
    have l': "length (fst (outerBody s maxShrink n m (pc, pl, a))) = length c"
      by (simp add: outerBody_result len)
    have k': "prev (fst (outerBody s maxShrink n m (pc, pl, a)) ! k) < k"
      if "Suc 0 \<le> k" "k < Suc m" "k < length c" for k
    proof (cases "k = m")
      case True
      with that len bp show ?thesis by (simp add: outerBody_result)
    next
      case False
      with that links [of k] show ?thesis by (simp add: outerBody_result)
    qed
    from l' k' show ?thesis unfolding step by blast
  qed
qed

lemma backtrace_returns:
  "(\<And>k. Suc 0 \<le> k \<Longrightarrow> k \<le> i \<Longrightarrow> prev (mCandidates s ! k) < k) \<Longrightarrow>
   \<exists>s'. backtrace ext i s = Some s' \<and> length (mBreaks s') - length (mBreaks s) \<le> i"
proof (induction i arbitrary: s rule: less_induct)
  case (less i)
  show ?case
  proof (cases "i = 0")
    case True
    then show ?thesis by (subst backtrace.simps) simp
  next
    case False
    let ?p = "prev (mCandidates s ! i)"
    let ?s1 = "s\<lparr>mBreaks := mBreaks s @ [int (offset (mCandidates s ! i))],
                 mWidths := mWidths s @
                   [postBreak (mCandidates s ! i) - preBreak (mCandidates s ! ?p)],
                 mAscents := mAscents s @
                   [ascent (computeMaxExtent (mCandidates s) (?p + 1) i)],
                 mDescents := mDescents s @
                   [descent (computeMaxExtent (mCandidates s) (?p + 1) i)],
                 mFlags := mFlags s @
                   [ucast (editForThisLine ext (hyphenType (mCandidates s ! i)) OR
                      (if ?p > 0
                       then editForNextLine ext (hyphenType (mCandidates s ! ?p))
                       else 0))]\<rparr>"
    from False less.prems [of i] have lt: "?p < i" by simp
    have unfold: "backtrace ext i s = backtrace ext ?p ?s1"
      using False by (subst backtrace.simps) simp
    have "\<exists>s'. backtrace ext ?p ?s1 = Some s' \<and>
               length (mBreaks s') - length (mBreaks ?s1) \<le> ?p"
      using less.prems lt by (intro less.IH) simp_all
    then obtain s' where r: "backtrace ext ?p ?s1 = Some s'"
      and n: "length (mBreaks s') - length (mBreaks ?s1) \<le> ?p"
      by (elim exE conjE)
    from n lt have "length (mBreaks s') - length (mBreaks s) \<le> i" by simp
    then show ?thesis unfolding unfold using r by blast
  qed
qed

text \<open>
  \<^verbatim>\<open>computeBreaksOptimal\<close> returns whenever there is a candidate, as there is after
  \<^verbatim>\<open>setText\<close>: every link the forward pass writes points to an earlier candidate, so the
  loop of \<^verbatim>\<open>finishBreaksOptimal\<close> reaches candidate 0; and it emits at most one break for
  each candidate after the first.
\<close>
theorem computeBreaksOptimal_returns:
  "mCandidates s \<noteq> [] \<longrightarrow>
     (\<exists>s'. computeBreaksOptimal ext s = Some s' \<and>
           length (mBreaks s') \<le> length (mCandidates s) - 1)"
proof
  assume ne: "mCandidates s \<noteq> []"
  define c where "c = mCandidates s"
  define n where "n = length c"
  define pc where "pc = fst (optimalPass ext s)"
  let ?s0 = "s\<lparr>mCandidates := pc, mBreaks := [], mWidths := [], mAscents := [],
               mDescents := [], mFlags := []\<rparr>"
  have pc: "pc = fst (fold (outerBody s (maxShrinkOf ext s) n) [Suc 0..<n] (c, [0], 0))"
    by (simp add: pc_def optimalPass_def Let_def c_def n_def)
  from optimal_fold_links [of s "maxShrinkOf ext s" n n c]
  have len: "length pc = n" and links: "\<And>k. Suc 0 \<le> k \<Longrightarrow> k < n \<Longrightarrow> prev (pc ! k) < k"
    by (simp_all add: pc n_def)
  from ne have n1: "Suc 0 \<le> n" by (cases "mCandidates s") (simp_all add: n_def c_def)
  have "\<exists>s'. backtrace ext (n - 1) ?s0 = Some s' \<and>
             length (mBreaks s') - length (mBreaks ?s0) \<le> n - 1"
    using links n1 by (intro backtrace_returns) simp
  then obtain s' where r: "backtrace ext (n - 1) ?s0 = Some s'"
    and b: "length (mBreaks s') - length (mBreaks ?s0) \<le> n - 1"
    by (elim exE conjE)
  have "computeBreaksOptimal ext s
          = Some (s'\<lparr>mBreaks := rev (mBreaks s'), mWidths := rev (mWidths s'),
                     mFlags := rev (mFlags s')\<rparr>)"
    using r len by (simp add: computeBreaksOptimal_def finishBreaksOptimal_def pc_def)
  moreover have "length (mBreaks s') \<le> length (mCandidates s) - 1"
    using b by (simp add: n_def c_def)
  ultimately show "\<exists>s'. computeBreaksOptimal ext s = Some s' \<and>
                        length (mBreaks s') \<le> length (mCandidates s) - 1"
    by simp
qed

theorem computeBreaksOptimal_returns_witness:
  "mCandidates example_three_words \<noteq> [] \<and>
   map_option mBreaks
     (computeBreaksOptimal (example_externals [] (\<lambda>i. zeroExtent)) example_three_words)
     = Some [6, 8] \<and>
   length (mCandidates example_three_words) - 1 = 3"
proof -
  have ne: "mCandidates example_three_words \<noteq> []" by code_simp
  have ev: "map_option mBreaks
              (computeBreaksOptimal (example_externals [] (\<lambda>i. zeroExtent)) example_three_words)
              = Some [6, 8]"
    by code_simp
  have n: "length (mCandidates example_three_words) - 1 = 3" by code_simp
  from computeBreaksOptimal_returns
         [of example_three_words "example_externals [] (\<lambda>i. zeroExtent)", rule_format, OF ne]
  obtain s' where "computeBreaksOptimal (example_externals [] (\<lambda>i. zeroExtent))
                     example_three_words = Some s'"
    by (elim exE conjE)
  with ne ev n show ?thesis by simp
qed

end
